theory Spec2Isabelle
  imports Main "HOL-Library.Word" "HOL-Library.Sublist"
begin

section \<open>The response layer of thinkgo: data model\<close>

text \<open>
  Go strings and byte slices are byte sequences: both are \<^typ>\<open>string\<close> here.
  A Go \<open>error\<close> value is an \<open>error option\<close>: \<open>None\<close> is \<open>nil\<close>.
\<close>

datatype error = errors_New string

text \<open>\<open>io.ErrShortWrite\<close> of the Go library.\<close>

definition io_ErrShortWrite :: error where
  "io_ErrShortWrite = errors_New ''short write''"

subsection \<open>\<open>http.Header\<close>: a map from header name to its values\<close>

text \<open>
  \<open>http.Header\<close> is \<open>map[string][]string\<close>. Its methods canonicalise the key first; every
  key used by the functions below is a constant already in canonical form, so the key is
  used as it is.
\<close>

type_synonym Header = "string \<rightharpoonup> string list"

definition Header_Get :: "Header \<Rightarrow> string \<Rightarrow> string" where
  "Header_Get h key = (case h key of None \<Rightarrow> [] | Some [] \<Rightarrow> [] | Some (v # vs) \<Rightarrow> v)"

definition Header_Set :: "Header \<Rightarrow> string \<Rightarrow> string \<Rightarrow> Header" where
  "Header_Set h key val = h(key \<mapsto> [val])"

definition Header_Add :: "Header \<Rightarrow> string \<Rightarrow> string \<Rightarrow> Header" where
  "Header_Add h key val = h(key \<mapsto> (case h key of None \<Rightarrow> [] | Some vs \<Rightarrow> vs) @ [val])"

definition Header_Del :: "Header \<Rightarrow> string \<Rightarrow> Header" where
  "Header_Del h key = h(key := None)"

text \<open>The values stored under a key (\<open>h[key]\<close>; a missing key reads as the empty slice).\<close>

definition Header_Values :: "Header \<Rightarrow> string \<Rightarrow> string list" where
  "Header_Values h key = (case h key of None \<Rightarrow> [] | Some vs \<Rightarrow> vs)"

text \<open>
  Modelled from the spec: the header-name and MIME constants are declared elsewhere in the repository; the values are the ones the spec names.
\<close>

definition HeaderSetCookie :: string where
  "HeaderSetCookie = ''Set-Cookie''"

definition HeaderContentEncoding :: string where
  "HeaderContentEncoding = ''Content-Encoding''"

definition HeaderContentLength :: string where
  "HeaderContentLength = ''Content-Length''"

definition HeaderContentType :: string where
  "HeaderContentType = ''Content-Type''"

definition MIMEApplicationJSONCharsetUTF8 :: string where
  "MIMEApplicationJSONCharsetUTF8 = ''application/json; charset=utf-8''"

definition MIMEApplicationJavaScriptCharsetUTF8 :: string where
  "MIMEApplicationJavaScriptCharsetUTF8 = ''application/javascript; charset=utf-8''"

definition MIMEApplicationXMLCharsetUTF8 :: string where
  "MIMEApplicationXMLCharsetUTF8 = ''application/xml; charset=utf-8''"

subsection \<open>The underlying \<open>http.ResponseWriter\<close>\<close>

text \<open>
  The wrapped writer belongs to \<open>net/http\<close>. It is modelled by what the wrapper hands to
  it: its header map and the sequence of \<open>WriteHeader\<close> and \<open>Write\<close> calls made on it, the
  former with the header map as it stands at that moment. This call sequence is the wire
  output of the response. The status is a Go \<open>int\<close> that is only stored and passed on;
  \<open>size\<close> is an \<open>int64\<close> counter and wraps around.
\<close>

datatype wire_call = WriteHeaderCall int Header | WriteCall string

record ResponseWriter =
  header :: Header
  calls :: "wire_call list"

record Response =
  writer :: ResponseWriter
  status :: int
  size' :: "64 word"
  committed :: bool

record Request =
  reqHeader :: Header

text \<open>
  The part of \<open>Context\<close> that the response functions read or write: the response \<open>W\<close>, the
  request \<open>R\<close>, the compression switch, the run mode of \<open>frame.config\<close>, and the warnings
  handed to the logger.
\<close>

record Context =
  W :: Response
  R :: Request
  enableGzip :: bool
  RunMode :: string
  warnings :: "string list"

text \<open>
  Modelled from the spec: \<open>RUNMODE_PROD\<close> is declared elsewhere in the repository; it is the
  value of the run-mode flag that selects production formatting.
\<close>

definition RUNMODE_PROD :: string where
  "RUNMODE_PROD = ''prod''"

subsection \<open>Collaborators\<close>

text \<open>
  What the code calls but does not define. \<open>connWrite\<close> is the result \<open>(n, err)\<close> of the
  underlying writer's \<open>Write\<close>, which may depend on the calls made before.
  \<open>json_Marshal\<close>, \<open>json_MarshalIndent\<close>, \<open>xml_Marshal\<close>, \<open>xml_MarshalIndent\<close> (the latter
  two with prefix \<open>""\<close> and indent of two spaces) and \<open>JSEscapeString\<close> are the Go library's.

  Modelled from the spec: \<open>beforeWriteHeader\<close> is a method of \<open>Context\<close> defined elsewhere
  in the repository, the pre-commit hook that "allows the enclosing request context to inject
  last-moment headers": a transformation of the header map.

  Modelled from the spec: package \<open>acceptencoder\<close> of the repository is
  "a content-encoding negotiator taking an encoding request and raw bytes, returning
  (applied: bool, encodingName: string, compressedBytes)": \<open>ParseEncoding\<close> reads the
  request, \<open>WriteBody\<close> gives whether an encoding was applied, its name, and the bytes it
  wrote to the buffer.
\<close>

record 'd Collaborators =
  beforeWriteHeader :: "Header \<Rightarrow> Header"
  connWrite :: "wire_call list \<Rightarrow> string \<Rightarrow> nat \<times> error option"
  ParseEncoding :: "Request \<Rightarrow> string"
  WriteBody :: "string \<Rightarrow> string \<Rightarrow> bool \<times> string \<times> string"
  json_Marshal :: "'d \<Rightarrow> error + string"
  json_MarshalIndent :: "'d \<Rightarrow> error + string"
  xml_Marshal :: "'d \<Rightarrow> error + string"
  xml_MarshalIndent :: "'d \<Rightarrow> error + string"
  JSEscapeString :: "string \<Rightarrow> string"

text \<open>A call either returns its \<open>error\<close> result or panics.\<close>

datatype outcome = Returns "error option" | Panics string

section \<open>Response\<close>

definition Response_Header :: "Context \<Rightarrow> Header" where
  "Response_Header ctx = header (writer (W ctx))"

text \<open>\<open>ctx.W.Header().Set(key, val)\<close> and \<open>ctx.W.Header().Add(key, val)\<close>.\<close>

definition setHeader :: "string \<Rightarrow> string \<Rightarrow> Context \<Rightarrow> Context" where
  "setHeader key val ctx =
     ctx\<lparr>W := (W ctx)\<lparr>writer := (writer (W ctx))\<lparr>header :=
       Header_Set (header (writer (W ctx))) key val\<rparr>\<rparr>\<rparr>"

definition addHeader :: "string \<Rightarrow> string \<Rightarrow> Context \<Rightarrow> Context" where
  "addHeader key val ctx =
     ctx\<lparr>W := (W ctx)\<lparr>writer := (writer (W ctx))\<lparr>header :=
       Header_Add (header (writer (W ctx))) key val\<rparr>\<rparr>\<rparr>"

definition delHeader :: "string \<Rightarrow> Context \<Rightarrow> Context" where
  "delHeader key ctx =
     ctx\<lparr>W := (W ctx)\<lparr>writer := (writer (W ctx))\<lparr>header :=
       Header_Del (header (writer (W ctx))) key\<rparr>\<rparr>\<rparr>"

text \<open>
  \<open>Response.WriteHeader\<close>: on a committed response, a warning and nothing else. Otherwise
  the status is stored, the hook runs, the underlying writer's \<open>WriteHeader\<close> is called and
  the response is committed.
\<close>

definition WriteHeader :: "'d Collaborators \<Rightarrow> int \<Rightarrow> Context \<Rightarrow> Context" where
  "WriteHeader E st ctx =
     (if committed (W ctx)
      then ctx\<lparr>warnings := warnings ctx @ [''multiple response.WriteHeader calls'']\<rparr>
      else
        let resp = (W ctx)\<lparr>status := st\<rparr>;
            h = beforeWriteHeader E (header (writer resp));
            w = (writer resp)\<lparr>header := h, calls := calls (writer resp) @ [WriteHeaderCall st h]\<rparr>
        in ctx\<lparr>W := resp\<lparr>writer := w, committed := True\<rparr>\<rparr>)"

text \<open>
  \<open>Response.Write\<close>: forwards to the underlying writer and adds the count it reports to
  \<open>size\<close>. Returns the new context with \<open>(n, err)\<close>.
\<close>

definition Write :: "'d Collaborators \<Rightarrow> string \<Rightarrow> Context \<Rightarrow> Context \<times> nat \<times> error option" where
  "Write E b ctx =
     (let w = writer (W ctx);
          (n, err) = connWrite E (calls w) b;
          w' = w\<lparr>calls := calls w @ [WriteCall b]\<rparr>
      in (ctx\<lparr>W := (W ctx)\<lparr>writer := w', size' := size' (W ctx) + of_nat n\<rparr>\<rparr>, n, err))"

text \<open>
  \<open>io.Copy(ctx.W, buf)\<close> for a \<open>*bytes.Buffer\<close> source: \<open>io.Copy\<close> calls \<open>buf.WriteTo(ctx.W)\<close>,
  which makes one \<open>Write\<close> call with the whole buffer when it is not empty, panics when the
  writer reports more bytes than it was given, returns the writer's error, and
  \<open>io.ErrShortWrite\<close> when fewer bytes were written without an error.
\<close>

definition io_Copy :: "'d Collaborators \<Rightarrow> string \<Rightarrow> Context \<Rightarrow> Context \<times> outcome" where
  "io_Copy E buf ctx =
     (if length buf > 0 then
        (let (ctx', m, e) = Write E buf ctx
         in if m > length buf then (ctx', Panics ''bytes.Buffer.WriteTo: invalid Write count'')
            else case e of
                Some err \<Rightarrow> (ctx', Returns (Some err))
              | None \<Rightarrow> if m \<noteq> length buf then (ctx', Returns (Some io_ErrShortWrite))
                        else (ctx', Returns None))
      else (ctx, Returns None))"

section \<open>\<open>strconv.Itoa\<close>\<close>

definition decimalDigits :: string where
  "decimalDigits = ''0123456789''"

fun decimal :: "nat \<Rightarrow> string" where
  "decimal n = (if n < 10 then [decimalDigits ! n]
                else decimal (n div 10) @ [decimalDigits ! (n mod 10)])"

declare decimal.simps [simp del]

definition Itoa :: "int \<Rightarrow> string" where
  "Itoa i = (if i < 0 then ''-'' @ decimal (nat (- i)) else decimal (nat i))"

section \<open>Send\<close>

text \<open>The last three lines of \<open>Send\<close>: commit with the status, write the content.\<close>

definition commitAndWrite :: "'d Collaborators \<Rightarrow> int \<Rightarrow> string \<Rightarrow> Context \<Rightarrow> Context \<times> outcome" where
  "commitAndWrite E st content ctx =
     (let ctx1 = WriteHeader E st ctx;
          (ctx2, n, err) = Write E content ctx1
      in (ctx2, Returns err))"

text \<open>
  \<open>Context.Send\<close>. The compressed branch returns from inside the two nested tests; every
  other path falls through to the final commit and write, the computed \<open>Content-Length\<close>
  being set only inside the outer test.
\<close>

definition Send :: "'d Collaborators \<Rightarrow> int \<Rightarrow> string \<Rightarrow> Context \<Rightarrow> Context \<times> outcome" where
  "Send E st content ctx =
     (if committed (W ctx)
      then (ctx, Returns (Some (errors_New ''multiple response.WriteHeader calls'')))
      else if Header_Get (Response_Header ctx) HeaderContentEncoding = [] then
        (let compressed =
               (if enableGzip ctx then
                  (let encoding = ParseEncoding E (R ctx);
                       (b, n, buf) = WriteBody E encoding content
                   in if b then Some (n, buf) else None)
                else None)
         in case compressed of
              Some (n, buf) \<Rightarrow>
                io_Copy E buf (WriteHeader E st (setHeader HeaderContentEncoding n ctx))
            | None \<Rightarrow>
                commitAndWrite E st content
                  (if Header_Get (Response_Header ctx) HeaderContentLength = []
                   then setHeader HeaderContentLength (Itoa (int (length content))) ctx
                   else ctx))
      else commitAndWrite E st content ctx)"

text \<open>\<open>Context.NoContent\<close>.\<close>

definition NoContent :: "'d Collaborators \<Rightarrow> int \<Rightarrow> Context \<Rightarrow> Context" where
  "NoContent E st ctx = WriteHeader E st ctx"

section \<open>Serializers\<close>

definition JSONBlob :: "'d Collaborators \<Rightarrow> int \<Rightarrow> string \<Rightarrow> Context \<Rightarrow> Context \<times> outcome" where
  "JSONBlob E st b ctx =
     Send E st b (setHeader HeaderContentType MIMEApplicationJSONCharsetUTF8 ctx)"

definition JSON :: "'d Collaborators \<Rightarrow> int \<Rightarrow> 'd \<Rightarrow> Context \<Rightarrow> Context \<times> outcome" where
  "JSON E st data ctx =
     (case (if RunMode ctx = RUNMODE_PROD then json_Marshal E data
            else json_MarshalIndent E data) of
        Inl err \<Rightarrow> (ctx, Returns (Some err))
      | Inr b \<Rightarrow> JSONBlob E st b ctx)"

definition JSONP :: "'d Collaborators \<Rightarrow> int \<Rightarrow> string \<Rightarrow> 'd \<Rightarrow> Context \<Rightarrow> Context \<times> outcome" where
  "JSONP E st callback data ctx =
     (case (if RunMode ctx = RUNMODE_PROD then json_Marshal E data
            else json_MarshalIndent E data) of
        Inl err \<Rightarrow> (ctx, Returns (Some err))
      | Inr b \<Rightarrow>
          (let ctx1 = setHeader HeaderContentType MIMEApplicationJavaScriptCharsetUTF8 ctx;
               callback' = JSEscapeString E callback;
               callbackContent = '' if(window.'' @ callback' @ '')'' @ callback';
               callbackContent = callbackContent @ ''('';
               callbackContent = callbackContent @ b;
               callbackContent = callbackContent @ '');'' @ [CHR 0x0D, CHR 0x0A]
           in Send E st callbackContent ctx1))"

text \<open>\<open>xml.Header\<close> of the Go library.\<close>

definition xml_Header :: string where
  \<open>xml_Header = ''<?xml version="1.0" encoding="UTF-8"?>'' @ [CHR 0x0A]\<close>

definition XMLBlob :: "'d Collaborators \<Rightarrow> int \<Rightarrow> string \<Rightarrow> Context \<Rightarrow> Context \<times> outcome" where
  "XMLBlob E st b ctx =
     (let ctx1 = setHeader HeaderContentType MIMEApplicationXMLCharsetUTF8 ctx;
          content = xml_Header @ b
      in Send E st content ctx1)"

definition XML :: "'d Collaborators \<Rightarrow> int \<Rightarrow> 'd \<Rightarrow> Context \<Rightarrow> Context \<times> outcome" where
  "XML E st data ctx =
     (case (if RunMode ctx = RUNMODE_PROD then xml_Marshal E data
            else xml_MarshalIndent E data) of
        Inl err \<Rightarrow> (ctx, Returns (Some err))
      | Inr b \<Rightarrow> XMLBlob E st b ctx)"

section \<open>Cookies\<close>

text \<open>
  \<open>Response.AddCookie\<close>, \<open>Response.SetCookie\<close> and \<open>Response.DelCookie\<close>. The argument is
  the string \<open>cookie.String()\<close> that \<open>net/http\<close> renders.
\<close>

definition Response_AddCookie :: "string \<Rightarrow> Context \<Rightarrow> Context" where
  "Response_AddCookie cookie ctx = addHeader HeaderSetCookie cookie ctx"

definition Response_SetCookie :: "string \<Rightarrow> Context \<Rightarrow> Context" where
  "Response_SetCookie cookie ctx = setHeader HeaderSetCookie cookie ctx"

definition Response_DelCookie :: "Context \<Rightarrow> Context" where
  "Response_DelCookie ctx = delHeader HeaderSetCookie ctx"

text \<open>
  \<open>strings.NewReplacer\<close> with pairs whose old and new strings are all single bytes: each
  byte of the input is replaced by the new byte of the first pair whose old byte it is.
\<close>

definition Replacer_Replace :: "(char \<times> char) list \<Rightarrow> string \<Rightarrow> string" where
  "Replacer_Replace pairs s = map (\<lambda>c. case map_of pairs c of None \<Rightarrow> c | Some n \<Rightarrow> n) s"

definition cookieNameSanitizer :: "(char \<times> char) list" where
  "cookieNameSanitizer = [(CHR 0x0A, CHR ''-''), (CHR 0x0D, CHR ''-'')]"

definition sanitizeName :: "string \<Rightarrow> string" where
  "sanitizeName n = Replacer_Replace cookieNameSanitizer n"

definition cookieValueSanitizer :: "(char \<times> char) list" where
  "cookieValueSanitizer = [(CHR 0x0A, CHR '' ''), (CHR 0x0D, CHR '' ''), (CHR '';'', CHR '' '')]"

definition sanitizeValue :: "string \<Rightarrow> string" where
  "sanitizeValue v = Replacer_Replace cookieValueSanitizer v"

text \<open>
  A value of type \<open>interface{}\<close>, by its dynamic type: \<open>nil\<close>, the types that \<open>SetCookie\<close>
  tests for (\<open>int\<close> taken as 64 bits wide), and any other type.
\<close>

datatype iface = INil | IInt "64 word" | IInt32 "32 word" | IInt64 "64 word"
  | IString string | IBool bool | IOther

text \<open>
  The clock and the keyed hash. \<open>expiresIn maxAge\<close> is
  \<open>time.Now().Add(time.Duration(maxAge)*time.Second).UTC().Format(time.RFC1123)\<close>,
  \<open>unixNano\<close> is \<open>time.Now().UnixNano()\<close>, and \<open>hmac_sha1 key msg\<close> is the sum of
  \<open>hmac.New(sha1.New, key)\<close> after \<open>msg\<close> was written to it.
\<close>

record Runtime =
  expiresIn :: "64 word \<Rightarrow> string"
  unixNano :: "64 word"
  hmac_sha1 :: "string \<Rightarrow> string \<Rightarrow> string"

text \<open>
  The buffer \<open>b\<close> of \<open>Context.SetCookie\<close> is kept as the list of the strings that the
  successive \<open>Fprintf\<close> calls write to it; \<open>b.String()\<close> is their concatenation. Each of
  the following gives the writes of one block of the function.
\<close>

definition maxAgeWrites :: "Runtime \<Rightarrow> iface list \<Rightarrow> string list" where
  "maxAgeWrites rt others =
     (if length others > 0 then
        (let maxAge = (case others ! 0 of
                         IInt v \<Rightarrow> v
                       | IInt32 v \<Rightarrow> scast v
                       | IInt64 v \<Rightarrow> v
                       | _ \<Rightarrow> 0)
         in if sint maxAge > 0
            then [''; Expires='' @ expiresIn rt maxAge @ ''; Max-Age='' @ Itoa (sint maxAge)]
            else if sint maxAge < 0 then [''; Max-Age=0'']
            else [])
      else [])"

definition pathWrites :: "iface list \<Rightarrow> string list" where
  "pathWrites others =
     (if length others > 1 then
        (case others ! 1 of
           IString v \<Rightarrow> if length v > 0 then [''; Path='' @ sanitizeValue v] else []
         | _ \<Rightarrow> [])
      else [''; Path=/''])"

definition domainWrites :: "iface list \<Rightarrow> string list" where
  "domainWrites others =
     (if length others > 2 then
        (case others ! 2 of
           IString v \<Rightarrow> if length v > 0 then [''; Domain='' @ sanitizeValue v] else []
         | _ \<Rightarrow> [])
      else [])"

definition secureWrites :: "iface list \<Rightarrow> string list" where
  "secureWrites others =
     (if length others > 3 then
        (let secure = (case others ! 3 of
                         IBool v \<Rightarrow> v
                       | INil \<Rightarrow> False
                       | _ \<Rightarrow> True)
         in if secure then [''; Secure''] else [])
      else [])"

definition httpOnlyWrites :: "iface list \<Rightarrow> string list" where
  "httpOnlyWrites others =
     (let httponly = (if length others > 4
                      then (case others ! 4 of IBool v \<Rightarrow> v | _ \<Rightarrow> False)
                      else False)
      in if httponly then [''; HttpOnly''] else [])"

definition cookieWrites :: "Runtime \<Rightarrow> string \<Rightarrow> string \<Rightarrow> iface list \<Rightarrow> string list" where
  "cookieWrites rt name val others =
     [sanitizeName name @ ''='' @ sanitizeValue val]
     @ maxAgeWrites rt others
     @ pathWrites others
     @ domainWrites others
     @ secureWrites others
     @ httpOnlyWrites others"

text \<open>\<open>b.String()\<close> at the end of \<open>Context.SetCookie\<close>: the \<open>Set-Cookie\<close> value it emits.\<close>

definition cookieString :: "Runtime \<Rightarrow> string \<Rightarrow> string \<Rightarrow> iface list \<Rightarrow> string" where
  "cookieString rt name val others = concat (cookieWrites rt name val others)"

definition SetCookie :: "Runtime \<Rightarrow> string \<Rightarrow> string \<Rightarrow> iface list \<Rightarrow> Context \<Rightarrow> Context" where
  "SetCookie rt name val others ctx =
     addHeader HeaderSetCookie (cookieString rt name val others) ctx"

subsection \<open>SetSecureCookie\<close>

text \<open>\<open>base64.URLEncoding.EncodeToString\<close>: the URL-safe alphabet, with \<open>=\<close> padding.\<close>

definition encodeURL :: string where
  "encodeURL = ''ABCDEFGHIJKLMNOPQRSTUVWXYZabcdefghijklmnopqrstuvwxyz0123456789-_''"

fun EncodeToString :: "string \<Rightarrow> string" where
  "EncodeToString [] = []"
| "EncodeToString [a] =
     (let v = (of_char a :: nat) * 65536
      in [encodeURL ! (v div 262144), encodeURL ! (v div 4096 mod 64), CHR ''='', CHR ''=''])"
| "EncodeToString [a, b] =
     (let v = (of_char a :: nat) * 65536 + of_char b * 256
      in [encodeURL ! (v div 262144), encodeURL ! (v div 4096 mod 64),
          encodeURL ! (v div 64 mod 64), CHR ''=''])"
| "EncodeToString (a # b # c # rest) =
     (let v = (of_char a :: nat) * 65536 + of_char b * 256 + of_char c
      in [encodeURL ! (v div 262144), encodeURL ! (v div 4096 mod 64),
          encodeURL ! (v div 64 mod 64), encodeURL ! (v mod 64)])
     @ EncodeToString rest"

text \<open>
  \<open>fmt.Sprintf("%02x", bytes)\<close>: two lowercase hexadecimal digits for each byte, the whole
  padded with zeros to the width of two.
\<close>

definition hexDigits :: string where
  "hexDigits = ''0123456789abcdef''"

definition hexByte :: "char \<Rightarrow> string" where
  "hexByte c = [hexDigits ! ((of_char c :: nat) div 16),
                hexDigits ! ((of_char c :: nat) mod 16)]"

definition Sprintf_02x :: "string \<Rightarrow> string" where
  "Sprintf_02x bs =
     (let h = concat (map hexByte bs)
      in replicate (2 - length h) (CHR ''0'') @ h)"

text \<open>\<open>strings.Join(elems, sep)\<close>.\<close>

fun Join :: "string list \<Rightarrow> string \<Rightarrow> string" where
  "Join [] sep = []"
| "Join [x] sep = x"
| "Join (x # y # ys) sep = x @ sep @ Join (y # ys) sep"

text \<open>The value that \<open>SetSecureCookie\<close> builds in its local \<open>cookie\<close>.\<close>

definition secureCookieValue :: "Runtime \<Rightarrow> string \<Rightarrow> string \<Rightarrow> string" where
  "secureCookieValue rt secret val =
     (let vs = EncodeToString val;
          timestamp = Itoa (sint (unixNano rt));
          sig = Sprintf_02x (hmac_sha1 rt secret (vs @ timestamp))
      in Join [vs, timestamp, sig] ''|'')"

definition SetSecureCookie ::
  "Runtime \<Rightarrow> string \<Rightarrow> string \<Rightarrow> string \<Rightarrow> iface list \<Rightarrow> Context \<Rightarrow> Context" where
  "SetSecureCookie rt secret name val others ctx =
     SetCookie rt name (secureCookieValue rt secret val) others ctx"

section \<open>Sequences of commit-causing calls\<close>

text \<open>The two calls that commit a response, used to state properties of their sequences.\<close>

datatype commit_call = CallWriteHeader int | CallSend int string

fun commitCall :: "'d Collaborators \<Rightarrow> commit_call \<Rightarrow> Context \<Rightarrow> Context" where
  "commitCall E (CallWriteHeader st) ctx = WriteHeader E st ctx"
| "commitCall E (CallSend st content) ctx = fst (Send E st content ctx)"

text \<open>Successive \<open>SetCookie\<close> calls, each with the clock reading of its moment.\<close>

definition SetCookies ::
  "(Runtime \<times> string \<times> string \<times> iface list) list \<Rightarrow> Context \<Rightarrow> Context" where
  "SetCookies cs ctx = fold (\<lambda>(rt, name, val, others). SetCookie rt name val others) cs ctx"

section \<open>Notions used by the statements\<close>

text \<open>The number that a string of decimal digits denotes.\<close>

definition decimalValue :: "string \<Rightarrow> nat" where
  "decimalValue s = foldl (\<lambda>a c. 10 * a + (of_char c - 48)) 0 s"

text \<open>The integer that an optional minus sign followed by decimal digits denotes.\<close>

definition decimalInt :: "string \<Rightarrow> int" where
  "decimalInt s =
     (case s of
        [] \<Rightarrow> 0
      | c # ds \<Rightarrow> if c = CHR ''-'' then - int (decimalValue ds) else int (decimalValue s))"

text \<open>
  Decoding of base64 with the URL-safe alphabet (RFC 4648, section 5), from the byte
  values of the characters: \<open>A\<close> to \<open>Z\<close> are 0 to 25, \<open>a\<close> to \<open>z\<close> 26 to 51, \<open>0\<close> to \<open>9\<close>
  52 to 61, \<open>-\<close> is 62 and \<open>_\<close> is 63; four characters give three bytes, and \<open>=\<close> pads
  the last group.
\<close>

definition base64urlValue :: "char \<Rightarrow> nat" where
  "base64urlValue c =
     (let n = (of_char c :: nat)
      in if 65 \<le> n \<and> n \<le> 90 then n - 65
         else if 97 \<le> n \<and> n \<le> 122 then n - 71
         else if 48 \<le> n \<and> n \<le> 57 then n + 4
         else if c = CHR ''-'' then 62
         else 63)"

fun base64urlDecode :: "string \<Rightarrow> string" where
  "base64urlDecode (a # b # c # d # rest) =
     (if c = CHR ''='' then
        [char_of ((base64urlValue a * 64 + base64urlValue b) div 16)]
      else if d = CHR ''='' then
        (let v = base64urlValue a * 4096 + base64urlValue b * 64 + base64urlValue c
         in [char_of (v div 1024), char_of (v div 4 mod 256)])
      else
        (let v = base64urlValue a * 262144 + base64urlValue b * 4096
                 + base64urlValue c * 64 + base64urlValue d
         in [char_of (v div 65536), char_of (v div 256 mod 256), char_of (v mod 256)])
        @ base64urlDecode rest)"
| "base64urlDecode _ = []"

text \<open>
  Decoding of lowercase hexadecimal, from the byte values of the characters: \<open>0\<close> to \<open>9\<close>
  are 0 to 9 and \<open>a\<close> to \<open>f\<close> are 10 to 15; two characters give one byte.
\<close>

definition hexValue :: "char \<Rightarrow> nat" where
  "hexValue c =
     (let n = (of_char c :: nat)
      in if 48 \<le> n \<and> n \<le> 57 then n - 48 else n - 87)"

fun hexDecode :: "string \<Rightarrow> string" where
  "hexDecode (h # l # rest) = char_of (hexValue h * 16 + hexValue l) # hexDecode rest"
| "hexDecode _ = []"

text \<open>The fields of a string between the occurrences of a separator byte.\<close>

fun splitOn :: "char \<Rightarrow> string \<Rightarrow> string list" where
  "splitOn sep [] = [[]]"
| "splitOn sep (c # cs) =
     (if c = sep then [] # splitOn sep cs
      else (case splitOn sep cs of [] \<Rightarrow> [[c]] | f # fs \<Rightarrow> (c # f) # fs))"

text \<open>The two bytes that end a header line.\<close>

definition lineBreak :: "char \<Rightarrow> bool" where
  "lineBreak c = (c = CHR 0x0A \<or> c = CHR 0x0D)"

subsection \<open>Concrete collaborators and contexts\<close>

text \<open>
  A transport that accepts every byte, a negotiator that knows \<open>gzip\<close> only and marks its
  output with \<open>GZ\<close>, marshalers that reject the value \<open>func()\<close>, and the escapes of
  \<open>JSEscapeString\<close> on printable ASCII.
\<close>

definition exampleJSEscape :: "string \<Rightarrow> string" where
  \<open>exampleJSEscape s = concat (map (\<lambda>c.
      if c = CHR 0x5C then [CHR 0x5C, CHR 0x5C]
      else if c = CHR 0x27 then [CHR 0x5C, CHR 0x27]
      else if c = CHR 0x22 then [CHR 0x5C, CHR 0x22]
      else if c = CHR ''<'' then CHR 0x5C # ''u003C''
      else if c = CHR ''>'' then CHR 0x5C # ''u003E''
      else if c = CHR ''&'' then CHR 0x5C # ''u0026''
      else if c = CHR ''='' then CHR 0x5C # ''u003D''
      else [c]) s)\<close>

definition exampleCollab :: "string Collaborators" where
  \<open>exampleCollab = \<lparr>
     beforeWriteHeader = (\<lambda>h. h),
     connWrite = (\<lambda>cs b. (length b, None)),
     ParseEncoding = (\<lambda>r. Header_Get (reqHeader r) ''Accept-Encoding''),
     WriteBody = (\<lambda>enc c. if enc = ''gzip'' then (True, ''gzip'', ''GZ'' @ c)
                           else (False, [], [])),
     json_Marshal = (\<lambda>d. if d = ''func()''
        then Inl (errors_New ''json: unsupported type: func()'') else Inr d),
     json_MarshalIndent = (\<lambda>d. if d = ''func()''
        then Inl (errors_New ''json: unsupported type: func()'')
        else if d = ''{"a":1}''
        then Inr (''{'' @ [CHR 0x0A] @ ''  "a": 1'' @ [CHR 0x0A] @ ''}'')
        else Inr d),
     xml_Marshal = (\<lambda>d. if d = ''func()''
        then Inl (errors_New ''xml: unsupported type: func()'') else Inr d),
     xml_MarshalIndent = (\<lambda>d. if d = ''func()''
        then Inl (errors_New ''xml: unsupported type: func()'') else Inr d),
     JSEscapeString = exampleJSEscape\<rparr>\<close>

definition exampleContext :: Context where
  "exampleContext = \<lparr>
     W = \<lparr>writer = \<lparr>header = Map.empty, calls = []\<rparr>,
          status = 0, size' = 0, committed = False\<rparr>,
     R = \<lparr>reqHeader = [''Accept-Encoding'' \<mapsto> [''gzip'']]\<rparr>,
     enableGzip = True,
     RunMode = ''dev'',
     warnings = []\<rparr>"

definition exampleRuntime :: Runtime where
  "exampleRuntime = \<lparr>
     expiresIn = (\<lambda>m. ''Thu, 01 Jan 1970 00:00:00 UTC''),
     unixNano = 1500000000000000000,
     hmac_sha1 = (\<lambda>k m. replicate 20 (CHR 0x5A))\<rparr>"

section \<open>Properties\<close>

subsection \<open>The commit flag\<close>

lemma WriteHeader_committed: "committed (W (WriteHeader E st ctx))"
  by (simp add: WriteHeader_def Let_def)

lemma Write_committed: "committed (W (fst (Write E b ctx))) = committed (W ctx)"
  by (simp add: Write_def Let_def split: prod.splits)

lemma io_Copy_committed: "committed (W (fst (io_Copy E buf ctx))) = committed (W ctx)"
  using Write_committed [of E buf ctx]
  by (auto simp: io_Copy_def Let_def split: prod.splits option.splits)

lemma commitAndWrite_committed: "committed (W (fst (commitAndWrite E st content ctx)))"
  using Write_committed [of E content "WriteHeader E st ctx"] WriteHeader_committed [of E st ctx]
  by (auto simp: commitAndWrite_def Let_def split: prod.splits)

lemma Send_committed: "committed (W (fst (Send E st content ctx)))"
  by (auto simp: Send_def Let_def io_Copy_committed WriteHeader_committed
      commitAndWrite_committed split: prod.splits option.splits)

lemma commitCall_committed: "committed (W (commitCall E call ctx))"
  by (cases call) (simp_all add: WriteHeader_committed Send_committed)

text \<open>
  C1. Whatever the first commit-causing call (\<open>WriteHeader\<close> or \<open>Send\<close>) and whatever the
  response it is made on, a second \<open>WriteHeader\<close> only appends the warning to the log: the
  calls made on the underlying writer and the stored status stay as they are. A second
  \<open>Send\<close> returns the error and leaves the whole context, and so the wire, untouched.
\<close>

theorem second_commit_no_wire_output:
  "(let ctx1 = commitCall E first ctx;
        ctx2 = WriteHeader E st ctx1
    in ctx2 = ctx1\<lparr>warnings := warnings ctx1 @ [''multiple response.WriteHeader calls'']\<rparr>
       \<and> calls (writer (W ctx2)) = calls (writer (W ctx1))
       \<and> status (W ctx2) = status (W ctx1)
       \<and> Send E st content ctx1
           = (ctx1, Returns (Some (errors_New ''multiple response.WriteHeader calls''))))"
  using commitCall_committed [of E first ctx]
  by (simp add: Let_def WriteHeader_def Send_def)

theorem second_commit_no_wire_output_witness:
  "calls (writer (W (commitCall exampleCollab (CallSend 200 ''hello'') exampleContext)))
     = [WriteHeaderCall 200 [''Content-Encoding'' \<mapsto> [''gzip'']], WriteCall ''GZhello'']
   \<and> calls (writer (W (WriteHeader exampleCollab 500
         (commitCall exampleCollab (CallSend 200 ''hello'') exampleContext))))
     = [WriteHeaderCall 200 [''Content-Encoding'' \<mapsto> [''gzip'']], WriteCall ''GZhello'']
   \<and> snd (Send exampleCollab 500 ''again''
         (commitCall exampleCollab (CallSend 200 ''hello'') exampleContext))
     = Returns (Some (errors_New ''multiple response.WriteHeader calls''))"
proof -
  have "calls (writer (W (commitCall exampleCollab (CallSend 200 ''hello'') exampleContext)))
     = [WriteHeaderCall 200 [''Content-Encoding'' \<mapsto> [''gzip'']], WriteCall ''GZhello'']"
    by (simp add: Send_def io_Copy_def Write_def WriteHeader_def setHeader_def Let_def
        Response_Header_def Header_Get_def Header_Set_def HeaderContentEncoding_def
        exampleCollab_def exampleContext_def)
  then show ?thesis
    using second_commit_no_wire_output
      [where E = exampleCollab and first = "CallSend 200 ''hello''" and ctx = exampleContext
        and st = 500 and content = "''again''"]
    by (simp add: Let_def)
qed

subsection \<open>Decimal rendering\<close>

lemma length_decimalDigits: "length decimalDigits = 10"
  by (simp add: decimalDigits_def)

lemma decimal_digits: "set (decimal n) \<subseteq> set decimalDigits"
proof (induction n rule: decimal.induct)
  case (1 n)
  have d: "d < 10 \<Longrightarrow> decimalDigits ! d \<in> set decimalDigits" for d :: nat
    by (rule nth_mem) (simp add: length_decimalDigits)
  show ?case
  proof (cases "n < 10")
    case True
    with d [of n] show ?thesis by (subst decimal.simps) simp
  next
    case False
    with 1 have "set (decimal (n div 10)) \<subseteq> set decimalDigits" by simp
    moreover have "decimalDigits ! (n mod 10) \<in> set decimalDigits" by (rule d) simp
    ultimately show ?thesis using False by (subst decimal.simps) simp
  qed
qed

lemma Itoa_chars: "set (Itoa i) \<subseteq> insert (CHR ''-'') (set decimalDigits)"
  using decimal_digits [of "nat i"] decimal_digits [of "nat (- i)"]
  by (auto simp: Itoa_def)

lemma digit_char: "d < 10 \<Longrightarrow> (of_char (decimalDigits ! d) :: nat) = 48 + d"
proof -
  assume "d < 10"
  then have "d \<in> {0, 1, 2, 3, 4, 5, 6, 7, 8, 9}" by auto
  then show ?thesis by (auto simp: decimalDigits_def)
qed

lemma decimalValue_snoc: "decimalValue (s @ [c]) = 10 * decimalValue s + (of_char c - 48)"
  by (simp add: decimalValue_def)

lemma decimalValue_decimal: "decimalValue (decimal n) = n"
proof (induction n rule: decimal.induct)
  case (1 n)
  show ?case
  proof (cases "n < 10")
    case True
    then show ?thesis by (simp add: decimal.simps [of n] decimalValue_def digit_char)
  next
    case False
    with 1 have "decimalValue (decimal (n div 10)) = n div 10" by simp
    with False show ?thesis
      by (simp add: decimal.simps [of n] decimalValue_snoc digit_char)
  qed
qed

subsection \<open>Send\<close>

lemmas send_defs = Send_def commitAndWrite_def io_Copy_def Write_def WriteHeader_def
  setHeader_def Response_Header_def Header_Get_def Header_Set_def HeaderContentEncoding_def
  HeaderContentLength_def

text \<open>
  C2. On an uncommitted response whose \<open>Content-Encoding\<close> reads empty, with compression
  enabled and the negotiator reporting an applied encoding \<open>n\<close> with compressed bytes
  \<open>buf\<close>: \<open>Send\<close> sets \<open>Content-Encoding\<close> to \<open>n\<close> and nothing else in the header map (the
  \<open>Content-Length\<close> entry is the caller's), commits with the given status after the hook,
  and hands the compressed buffer to the writer in one write (none when it is empty).
\<close>

theorem Send_compressed:
  assumes "\<not> committed (W ctx)"
    and "Header_Get (Response_Header ctx) HeaderContentEncoding = []"
    and "enableGzip ctx"
    and "WriteBody E (ParseEncoding E (R ctx)) content = (True, n, buf)"
  shows "(let h0 = Response_Header ctx;
              h1 = h0(HeaderContentEncoding \<mapsto> [n]);
              h2 = beforeWriteHeader E h1;
              ctx' = fst (Send E st content ctx)
          in Header_Get h1 HeaderContentEncoding = n
             \<and> h1 HeaderContentLength = h0 HeaderContentLength
             \<and> Response_Header ctx' = h2
             \<and> calls (writer (W ctx'))
                 = calls (writer (W ctx)) @ WriteHeaderCall st h2
                     # (if buf = [] then [] else [WriteCall buf])
             \<and> status (W ctx') = st
             \<and> committed (W ctx'))"
  using assms
  by (auto simp: Let_def send_defs split: prod.splits option.splits)

theorem Send_compressed_witness:
  "\<not> committed (W exampleContext)
   \<and> Header_Get (Response_Header exampleContext) HeaderContentEncoding = []
   \<and> enableGzip exampleContext
   \<and> WriteBody exampleCollab (ParseEncoding exampleCollab (R exampleContext)) ''hello''
       = (True, ''gzip'', ''GZhello'')
   \<and> Response_Header (fst (Send exampleCollab 200 ''hello'' exampleContext))
       = [''Content-Encoding'' \<mapsto> [''gzip'']]
   \<and> Response_Header (fst (Send exampleCollab 200 ''hello'' exampleContext))
         HeaderContentLength = None
   \<and> calls (writer (W (fst (Send exampleCollab 200 ''hello'' exampleContext))))
       = [WriteHeaderCall 200 [''Content-Encoding'' \<mapsto> [''gzip'']], WriteCall ''GZhello'']"
proof -
  have 1: "\<not> committed (W exampleContext)"
    and 2: "Header_Get (Response_Header exampleContext) HeaderContentEncoding = []"
    and 3: "enableGzip exampleContext"
    and 4: "WriteBody exampleCollab (ParseEncoding exampleCollab (R exampleContext)) ''hello''
       = (True, ''gzip'', ''GZhello'')"
    by (simp_all add: exampleContext_def exampleCollab_def Response_Header_def Header_Get_def)
  have 5: "Response_Header exampleContext = Map.empty"
    "calls (writer (W exampleContext)) = []"
    "beforeWriteHeader exampleCollab = (\<lambda>h. h)"
    by (simp_all add: exampleContext_def exampleCollab_def Response_Header_def)
  show ?thesis
    using 1 2 3 4 Send_compressed [OF 1 2 3 4, of 200]
    by (simp add: Let_def 5 HeaderContentEncoding_def HeaderContentLength_def)
qed

text \<open>
  C3. On an uncommitted response whose \<open>Content-Encoding\<close> the caller has set to a
  non-empty value, \<open>Send\<close> hands the header map to the hook as it is, commits with the
  given status and writes the content bytes unmodified. The result is the same whatever
  the negotiator, the request and the compression switch are: none of them is consulted.
\<close>

theorem Send_caller_encoding:
  assumes "\<not> committed (W ctx)"
    and "Header_Get (Response_Header ctx) HeaderContentEncoding \<noteq> []"
  shows "(let h0 = Response_Header ctx;
              h2 = beforeWriteHeader E h0;
              result = Send E st content ctx;
              ctx' = fst result
          in Response_Header ctx' = h2
             \<and> calls (writer (W ctx'))
                 = calls (writer (W ctx)) @ [WriteHeaderCall st h2, WriteCall content]
             \<and> status (W ctx') = st
             \<and> committed (W ctx')
             \<and> snd result
                 = Returns (snd (connWrite E (calls (writer (W ctx)) @ [WriteHeaderCall st h2])
                      content))
             \<and> Send (E\<lparr>ParseEncoding := p, WriteBody := wb\<rparr>) st content
                   (ctx\<lparr>R := r, enableGzip := g\<rparr>)
                 = (ctx'\<lparr>R := r, enableGzip := g\<rparr>, snd result))"
  using assms
  by (auto simp: Let_def Send_def commitAndWrite_def Write_def WriteHeader_def
      Response_Header_def split: prod.splits)

theorem Send_caller_encoding_witness:
  "\<not> committed (W (setHeader HeaderContentEncoding ''br'' exampleContext))
   \<and> Header_Get (Response_Header (setHeader HeaderContentEncoding ''br'' exampleContext))
         HeaderContentEncoding = ''br''
   \<and> enableGzip (setHeader HeaderContentEncoding ''br'' exampleContext)
   \<and> calls (writer (W (fst (Send exampleCollab 200 ''hello''
         (setHeader HeaderContentEncoding ''br'' exampleContext)))))
       = [WriteHeaderCall 200 [''Content-Encoding'' \<mapsto> [''br'']], WriteCall ''hello'']"
proof -
  let ?ctx = "setHeader HeaderContentEncoding ''br'' exampleContext"
  have 1: "\<not> committed (W ?ctx)"
    and 2: "Header_Get (Response_Header ?ctx) HeaderContentEncoding \<noteq> []"
    and 3: "Header_Get (Response_Header ?ctx) HeaderContentEncoding = ''br''"
    and 4: "enableGzip ?ctx"
    by (simp_all add: exampleContext_def setHeader_def Response_Header_def Header_Get_def
        Header_Set_def)
  have 5: "Response_Header ?ctx = [''Content-Encoding'' \<mapsto> [''br'']]"
    "calls (writer (W ?ctx)) = []"
    "beforeWriteHeader exampleCollab = (\<lambda>h. h)"
    by (simp_all add: exampleContext_def exampleCollab_def Response_Header_def setHeader_def
        Header_Set_def HeaderContentEncoding_def)
  show ?thesis
    using 1 3 4 Send_caller_encoding [OF 1 2, of exampleCollab 200 "''hello''"]
    by (simp add: Let_def 5)
qed

text \<open>
  C4. On an uncommitted response whose \<open>Content-Encoding\<close> reads empty, when compression
  is disabled or the negotiator applies no encoding: if \<open>Content-Length\<close> reads empty,
  \<open>Send\<close> sets it to the decimal rendering of the number of content bytes (a string of
  digits that denotes that number); otherwise the header map is left as the caller made
  it. Then it commits with the given status and writes exactly the content bytes.
\<close>

theorem Send_plain:
  assumes "\<not> committed (W ctx)"
    and "Header_Get (Response_Header ctx) HeaderContentEncoding = []"
    and "\<not> enableGzip ctx \<or> \<not> fst (WriteBody E (ParseEncoding E (R ctx)) content)"
  shows "(let h0 = Response_Header ctx;
              h1 = (if Header_Get h0 HeaderContentLength = []
                    then h0(HeaderContentLength \<mapsto> [Itoa (int (length content))])
                    else h0);
              h2 = beforeWriteHeader E h1;
              ctx' = fst (Send E st content ctx)
          in Response_Header ctx' = h2
             \<and> calls (writer (W ctx'))
                 = calls (writer (W ctx)) @ [WriteHeaderCall st h2, WriteCall content]
             \<and> status (W ctx') = st
             \<and> committed (W ctx')
             \<and> Header_Get h1 HeaderContentEncoding = []
             \<and> (if Header_Get h0 HeaderContentLength = []
                 then Header_Get h1 HeaderContentLength = decimal (length content)
                      \<and> decimalValue (Header_Get h1 HeaderContentLength) = length content
                 else h1 = h0))"
  using assms
  by (auto simp: Let_def send_defs Itoa_def decimalValue_decimal
      split: prod.splits option.splits list.splits)

theorem Send_plain_witness:
  "\<not> committed (W (exampleContext\<lparr>enableGzip := False\<rparr>))
   \<and> Header_Get (Response_Header (exampleContext\<lparr>enableGzip := False\<rparr>))
         HeaderContentEncoding = []
   \<and> \<not> enableGzip (exampleContext\<lparr>enableGzip := False\<rparr>)
   \<and> Header_Get (Response_Header (exampleContext\<lparr>enableGzip := False\<rparr>))
         HeaderContentLength = []
   \<and> calls (writer (W (fst (Send exampleCollab 200 ''hello, world''
         (exampleContext\<lparr>enableGzip := False\<rparr>)))))
       = [WriteHeaderCall 200 [''Content-Length'' \<mapsto> [''12'']], WriteCall ''hello, world'']"
proof -
  let ?ctx = "exampleContext\<lparr>enableGzip := False\<rparr>"
  have 1: "\<not> committed (W ?ctx)"
    and 2: "Header_Get (Response_Header ?ctx) HeaderContentEncoding = []"
    and 3: "\<not> enableGzip ?ctx"
    and 4: "Header_Get (Response_Header ?ctx) HeaderContentLength = []"
    by (simp_all add: exampleContext_def Response_Header_def Header_Get_def)
  from 3 have d3:
    "\<not> enableGzip ?ctx
     \<or> \<not> fst (WriteBody exampleCollab (ParseEncoding exampleCollab (R ?ctx)) ''hello, world'')"
    by (rule disjI1)
  have 5: "Response_Header ?ctx = Map.empty"
    "calls (writer (W exampleContext)) = []"
    "beforeWriteHeader exampleCollab = (\<lambda>h. h)"
    by (simp_all add: exampleContext_def exampleCollab_def Response_Header_def)
  have 6: "Itoa 12 = ''12''"
    by (simp add: Itoa_def decimal.simps decimalDigits_def)
  show ?thesis
    using 1 2 3 4 Send_plain [OF 1 2 d3, of 200]
    by (simp add: Let_def 5 6 HeaderContentLength_def)
qed

subsection \<open>Serializers\<close>

text \<open>
  C7. When the marshaler selected by the run mode fails, \<open>JSON\<close>, \<open>JSONP\<close> and \<open>XML\<close>
  return its error and the context they were given: no header is set, nothing is handed
  to the writer, and the commit flag is as it was.
\<close>

theorem marshal_error_uncommitted:
  "((if RunMode ctx = RUNMODE_PROD then json_Marshal E d else json_MarshalIndent E d) = Inl err
      \<longrightarrow> JSON E st d ctx = (ctx, Returns (Some err))
          \<and> JSONP E st callback d ctx = (ctx, Returns (Some err)))
   \<and> ((if RunMode ctx = RUNMODE_PROD then xml_Marshal E d else xml_MarshalIndent E d) = Inl err
      \<longrightarrow> XML E st d ctx = (ctx, Returns (Some err)))"
  by (simp add: JSON_def JSONP_def XML_def)

theorem marshal_error_uncommitted_witness:
  "json_MarshalIndent exampleCollab ''func()''
     = Inl (errors_New ''json: unsupported type: func()'')
   \<and> RunMode exampleContext \<noteq> RUNMODE_PROD
   \<and> JSON exampleCollab 200 ''func()'' exampleContext
     = (exampleContext, Returns (Some (errors_New ''json: unsupported type: func()'')))
   \<and> JSONP exampleCollab 200 ''cb'' ''func()'' exampleContext
     = (exampleContext, Returns (Some (errors_New ''json: unsupported type: func()'')))
   \<and> \<not> committed (W exampleContext)
   \<and> calls (writer (W exampleContext)) = []"
proof -
  have 1: "json_MarshalIndent exampleCollab ''func()''
     = Inl (errors_New ''json: unsupported type: func()'')"
    and 2: "RunMode exampleContext \<noteq> RUNMODE_PROD"
    and 3: "\<not> committed (W exampleContext)" "calls (writer (W exampleContext)) = []"
    by (simp_all add: exampleCollab_def exampleContext_def RUNMODE_PROD_def)
  show ?thesis
    using 1 2 3 marshal_error_uncommitted
      [where E = exampleCollab and ctx = exampleContext and d = "''func()''"
        and err = "errors_New ''json: unsupported type: func()''" and st = 200
        and callback = "''cb''"]
    by simp
qed

lemma commitAndWrite_calls:
  "\<not> committed (W ctx) \<Longrightarrow>
   calls (writer (W (fst (commitAndWrite E st content ctx))))
     = calls (writer (W ctx))
       @ [WriteHeaderCall st (beforeWriteHeader E (Response_Header ctx)), WriteCall content]"
  by (simp add: commitAndWrite_def WriteHeader_def Write_def Let_def Response_Header_def
      split: prod.splits)

lemma Send_uncompressed_calls:
  assumes "\<not> committed (W ctx)" and "\<not> enableGzip ctx"
  shows "\<exists>h. calls (writer (W (fst (Send E st content ctx))))
     = calls (writer (W ctx)) @ [WriteHeaderCall st h, WriteCall content]"
  using assms
  by (simp add: Send_def commitAndWrite_calls setHeader_def)

text \<open>
  C9. When the marshaler selected by the run mode (\<open>json.Marshal\<close> in production,
  \<open>json.MarshalIndent\<close> with two spaces otherwise) gives the bytes \<open>b\<close>, \<open>JSONP\<close> sets
  \<open>Content-Type\<close> to \<open>application/javascript; charset=utf-8\<close> and calls \<open>Send\<close> with the
  body that is a space, \<open>if(window.cb)cb(\<close>, the bytes \<open>b\<close>, \<open>);\<close>, CR and LF, where \<open>cb\<close>
  is the escaped callback. On an uncommitted response without compression these are
  the bytes written after the status.
\<close>

theorem JSONP_body:
  assumes "(if RunMode ctx = RUNMODE_PROD then json_Marshal E d else json_MarshalIndent E d)
      = Inr b"
  shows "(let cb = JSEscapeString E callback;
              body = '' if(window.'' @ cb @ '')'' @ cb @ ''('' @ b @ '');''
                     @ [CHR 0x0D, CHR 0x0A];
              ctx1 = setHeader HeaderContentType MIMEApplicationJavaScriptCharsetUTF8 ctx
          in JSONP E st callback d ctx = Send E st body ctx1
             \<and> Header_Get (Response_Header ctx1) HeaderContentType
                 = ''application/javascript; charset=utf-8''
             \<and> (\<not> committed (W ctx) \<and> \<not> enableGzip ctx \<longrightarrow>
                  (\<exists>h. calls (writer (W (fst (JSONP E st callback d ctx))))
                        = calls (writer (W ctx)) @ [WriteHeaderCall st h, WriteCall body])))"
proof -
  let ?cb = "JSEscapeString E callback"
  let ?body = "'' if(window.'' @ ?cb @ '')'' @ ?cb @ ''('' @ b @ '');'' @ [CHR 0x0D, CHR 0x0A]"
  let ?ctx1 = "setHeader HeaderContentType MIMEApplicationJavaScriptCharsetUTF8 ctx"
  have 1: "JSONP E st callback d ctx = Send E st ?body ?ctx1"
    using assms by (simp add: JSONP_def Let_def)
  have 2: "Header_Get (Response_Header ?ctx1) HeaderContentType
      = ''application/javascript; charset=utf-8''"
    by (simp add: setHeader_def Response_Header_def Header_Get_def Header_Set_def
        MIMEApplicationJavaScriptCharsetUTF8_def)
  have 3: "\<exists>h. calls (writer (W (fst (JSONP E st callback d ctx))))
                        = calls (writer (W ctx)) @ [WriteHeaderCall st h, WriteCall ?body]"
    if "\<not> committed (W ctx)" "\<not> enableGzip ctx"
  proof -
    have "\<not> committed (W ?ctx1)" "\<not> enableGzip ?ctx1"
      "calls (writer (W ?ctx1)) = calls (writer (W ctx))"
      using that by (simp_all add: setHeader_def)
    then show ?thesis
      using Send_uncompressed_calls [of ?ctx1 E st ?body] 1 by simp
  qed
  show ?thesis unfolding Let_def using 1 2 3 by blast
qed

theorem JSONP_body_witness:
  \<open>RunMode (exampleContext\<lparr>enableGzip := False\<rparr>) \<noteq> RUNMODE_PROD
   \<and> json_MarshalIndent exampleCollab ''{"a":1}''
       = Inr (''{'' @ [CHR 0x0A] @ ''  "a": 1'' @ [CHR 0x0A] @ ''}'')
   \<and> \<not> committed (W (exampleContext\<lparr>enableGzip := False\<rparr>))
   \<and> \<not> enableGzip (exampleContext\<lparr>enableGzip := False\<rparr>)
   \<and> last (calls (writer (W (fst (JSONP exampleCollab 200 ''cb'' ''{"a":1}''
          (exampleContext\<lparr>enableGzip := False\<rparr>))))))
       = WriteCall ('' if(window.cb)cb({'' @ [CHR 0x0A] @ ''  "a": 1'' @ [CHR 0x0A] @ ''});''
           @ [CHR 0x0D, CHR 0x0A])\<close>
proof -
  let ?ctx = "exampleContext\<lparr>enableGzip := False\<rparr>"
  have 1: "RunMode ?ctx \<noteq> RUNMODE_PROD"
    and 2: \<open>json_MarshalIndent exampleCollab ''{"a":1}''
       = Inr (''{'' @ [CHR 0x0A] @ ''  "a": 1'' @ [CHR 0x0A] @ ''}'')\<close>
    and 3: "\<not> committed (W ?ctx)"
    and 4: "\<not> enableGzip ?ctx"
    by (simp_all add: exampleCollab_def exampleContext_def RUNMODE_PROD_def)
  from 1 2 have 5: \<open>(if RunMode ?ctx = RUNMODE_PROD then json_Marshal exampleCollab ''{"a":1}''
       else json_MarshalIndent exampleCollab ''{"a":1}'')
      = Inr (''{'' @ [CHR 0x0A] @ ''  "a": 1'' @ [CHR 0x0A] @ ''}'')\<close>
    by simp
  have 6: "JSEscapeString exampleCollab ''cb'' = ''cb''"
    by (simp add: exampleCollab_def exampleJSEscape_def)
  have "\<not> committed (W ?ctx) \<and> \<not> enableGzip ?ctx \<longrightarrow>
      (\<exists>h. calls (writer (W (fst (JSONP exampleCollab 200 ''cb'' ''{\"a\":1}'' ?ctx))))
         = calls (writer (W ?ctx)) @ [WriteHeaderCall 200 h,
             WriteCall ('' if(window.'' @ JSEscapeString exampleCollab ''cb'' @ '')''
               @ JSEscapeString exampleCollab ''cb'' @ ''(''
               @ (''{'' @ [CHR 0x0A] @ ''  \"a\": 1'' @ [CHR 0x0A] @ ''}'') @ '');''
               @ [CHR 0x0D, CHR 0x0A])])"
    using JSONP_body [OF 5, where st = 200 and callback = "''cb''"]
    unfolding Let_def by blast
  with 3 4
  have \<open>\<exists>h. calls (writer (W (fst (JSONP exampleCollab 200 ''cb'' ''{"a":1}'' ?ctx))))
     = calls (writer (W ?ctx)) @ [WriteHeaderCall 200 h,
         WriteCall ('' if(window.cb)cb({'' @ [CHR 0x0A] @ ''  "a": 1'' @ [CHR 0x0A] @ ''});''
           @ [CHR 0x0D, CHR 0x0A])]\<close>
    by (simp add: Let_def 6)
  then have \<open>last (calls (writer (W (fst (JSONP exampleCollab 200 ''cb'' ''{"a":1}'' ?ctx)))))
       = WriteCall ('' if(window.cb)cb({'' @ [CHR 0x0A] @ ''  "a": 1'' @ [CHR 0x0A] @ ''});''
           @ [CHR 0x0D, CHR 0x0A])\<close>
    by auto
  with 1 2 3 4 show ?thesis by blast
qed

subsection \<open>Cookie strings\<close>

lemmas cookie_defs = cookieString_def cookieWrites_def maxAgeWrites_def pathWrites_def
  domainWrites_def secureWrites_def httpOnlyWrites_def sanitizeName_def sanitizeValue_def
  Replacer_Replace_def cookieNameSanitizer_def cookieValueSanitizer_def

lemma sanitizeValue_map:
  "sanitizeValue v
     = map (\<lambda>c. if c = CHR '';'' \<or> c = CHR 0x0D \<or> c = CHR 0x0A then CHR '' '' else c) v"
  unfolding sanitizeValue_def Replacer_Replace_def cookieValueSanitizer_def
  by (rule map_cong) simp_all

lemma sanitizeName_map:
  "sanitizeName n = map (\<lambda>c. if c = CHR 0x0D \<or> c = CHR 0x0A then CHR ''-'' else c) n"
  unfolding sanitizeName_def Replacer_Replace_def cookieNameSanitizer_def
  by (rule map_cong) simp_all

lemma sanitizeName_chars:
  "CHR 0x0A \<notin> set (sanitizeName n) \<and> CHR 0x0D \<notin> set (sanitizeName n)"
  unfolding sanitizeName_map by (simp add: image_iff)

lemma sanitizeValue_chars:
  "CHR 0x0A \<notin> set (sanitizeValue v) \<and> CHR 0x0D \<notin> set (sanitizeValue v)
   \<and> CHR '';'' \<notin> set (sanitizeValue v)"
  unfolding sanitizeValue_map by (simp add: image_iff)

lemma maxAgeWrites_cases:
  "maxAgeWrites rt others = [] \<or> maxAgeWrites rt others = [''; Max-Age=0'']
   \<or> (\<exists>m. maxAgeWrites rt others
          = [''; Expires='' @ expiresIn rt m @ ''; Max-Age='' @ Itoa (sint m)])"
  by (auto simp: maxAgeWrites_def Let_def)

lemma pathWrites_cases:
  "pathWrites others = [] \<or> pathWrites others = [''; Path=/'']
   \<or> (\<exists>v. pathWrites others = [''; Path='' @ sanitizeValue v])"
  by (cases "others ! 1") (auto simp: pathWrites_def)

lemma domainWrites_cases:
  "domainWrites others = [] \<or> (\<exists>v. domainWrites others = [''; Domain='' @ sanitizeValue v])"
  by (cases "others ! 2") (auto simp: domainWrites_def)

lemma secureWrites_cases: "secureWrites others = [] \<or> secureWrites others = [''; Secure'']"
  by (simp add: secureWrites_def Let_def)

lemma httpOnlyWrites_cases:
  "httpOnlyWrites others = [] \<or> httpOnlyWrites others = [''; HttpOnly'']"
  by (simp add: httpOnlyWrites_def Let_def)

lemma path_attributes:
  "filter (prefix ''; Path='') (tl (cookieWrites rt name val others)) = pathWrites others"
proof -
  have 1: "filter (prefix ''; Path='') (maxAgeWrites rt others) = []"
    using maxAgeWrites_cases [of rt others] by auto
  have 2: "filter (prefix ''; Path='') (pathWrites others) = pathWrites others"
    using pathWrites_cases [of others] by auto
  have 3: "filter (prefix ''; Path='') (domainWrites others) = []"
    using domainWrites_cases [of others] by auto
  have 4: "filter (prefix ''; Path='') (secureWrites others) = []"
    using secureWrites_cases [of others] by auto
  have 5: "filter (prefix ''; Path='') (httpOnlyWrites others) = []"
    using httpOnlyWrites_cases [of others] by auto
  show ?thesis
    by (simp add: cookieWrites_def 1 2 3 4 5)
qed

lemma pathWrites_sublist:
  assumes "p \<in> set (pathWrites others)"
  shows "sublist p (cookieString rt name val others)"
proof -
  from assms have "sublist p (concat (pathWrites others))"
    by (auto simp: pathWrites_def split: if_splits iface.splits)
  then obtain a b where "concat (pathWrites others) = a @ p @ b"
    by (auto simp: sublist_def)
  then have "cookieString rt name val others
      = (sanitizeName name @ ''='' @ sanitizeValue val @ concat (maxAgeWrites rt others) @ a)
        @ p @ (b @ concat (domainWrites others) @ concat (secureWrites others)
               @ concat (httpOnlyWrites others))"
    by (simp add: cookieString_def cookieWrites_def)
  then show ?thesis unfolding sublist_def by blast
qed

lemma sublist_skip: "c \<notin> set a \<Longrightarrow> sublist (c # q) (a @ b) = sublist (c # q) b"
  by (induction a) (auto simp: sublist_Cons_right)

lemma maxAge_skip:
  assumes "\<forall>m. CHR '';'' \<notin> set (expiresIn rt m)"
  shows "sublist ''; Path='' (concat (maxAgeWrites rt others) @ b) = sublist ''; Path='' b"
proof -
  have i: "CHR '';'' \<notin> set (Itoa k)" for k
    using Itoa_chars [of k] by (auto simp: decimalDigits_def)
  from maxAgeWrites_cases [of rt others] show ?thesis
    using assms i by (auto simp: sublist_Cons_right sublist_skip)
qed

lemma domain_skip:
  "sublist ''; Path='' (concat (domainWrites others) @ b) = sublist ''; Path='' b"
  using domainWrites_cases [of others] sanitizeValue_chars
  by (auto simp: sublist_Cons_right sublist_skip)

lemma secure_skip:
  "sublist ''; Path='' (concat (secureWrites others) @ b) = sublist ''; Path='' b"
  using secureWrites_cases [of others]
  by (auto simp: sublist_Cons_right)

lemma httpOnly_skip:
  "sublist ''; Path='' (concat (httpOnlyWrites others) @ b) = sublist ''; Path='' b"
  using httpOnlyWrites_cases [of others]
  by (auto simp: sublist_Cons_right)

lemma sublist_across_eq:
  assumes "\<not> sublist ''; Path='' t"
  shows "sublist ''; Path='' ((n @ ''='') @ t) \<longleftrightarrow> sublist ''; Path='' (n @ ''='')"
proof
  assume "sublist ''; Path='' (n @ ''='')"
  then obtain ps ss where "n @ ''='' = ps @ ''; Path='' @ ss"
    by (auto simp: sublist_def)
  then have "(n @ ''='') @ t = ps @ ''; Path='' @ (ss @ t)" by simp
  then show "sublist ''; Path='' ((n @ ''='') @ t)"
    unfolding sublist_def by blast
next
  assume "sublist ''; Path='' ((n @ ''='') @ t)"
  then consider "sublist ''; Path='' (n @ ''='')" | "sublist ''; Path='' t"
    | p1 p2 where "''; Path='' = p1 @ p2" "suffix p1 (n @ ''='')" "prefix p2 t"
    unfolding sublist_append by blast
  then show "sublist ''; Path='' (n @ ''='')"
  proof cases
    case 1
    then show ?thesis .
  next
    case 2
    with assms show ?thesis by simp
  next
    case 3
    show ?thesis
    proof (cases "p2 = []")
      case True
      with 3 show ?thesis by simp
    next
      case False
      show ?thesis
      proof (cases "p1 = []")
        case True
        with 3 have "prefix ''; Path='' t" by simp
        with assms show ?thesis by auto
      next
        case p1: False
        from 3(2) obtain zs where "n @ ''='' = zs @ p1" by (auto simp: suffix_def)
        with p1 have "last p1 = CHR ''=''"
          by (metis last_appendR last_snoc)
        with p1 have "CHR ''='' \<in> set p1"
          by (metis last_in_set)
        moreover from 3(1) False have "butlast ''; Path='' = p1 @ butlast p2"
          by (simp add: butlast_append)
        then have "set p1 \<subseteq> set ''; Path''"
          by auto
        ultimately show ?thesis by auto
      qed
    qed
  qed
qed

lemma no_path_after_value:
  assumes "\<forall>m. CHR '';'' \<notin> set (expiresIn rt m)"
  shows "\<not> sublist ''; Path='' (sanitizeValue val @ concat (maxAgeWrites rt others)
      @ concat (domainWrites others) @ concat (secureWrites others)
      @ concat (httpOnlyWrites others))"
proof -
  have v: "CHR '';'' \<notin> set (sanitizeValue val)"
    using sanitizeValue_chars [of val] by simp
  have "sublist ''; Path='' (sanitizeValue val @ concat (maxAgeWrites rt others)
      @ concat (domainWrites others) @ concat (secureWrites others)
      @ concat (httpOnlyWrites others) @ [])
    = sublist ''; Path='' (concat (maxAgeWrites rt others)
      @ concat (domainWrites others) @ concat (secureWrites others)
      @ concat (httpOnlyWrites others) @ [])"
    using v by (rule sublist_skip)
  also have "\<dots> = sublist ''; Path='' (concat (domainWrites others)
      @ concat (secureWrites others) @ concat (httpOnlyWrites others) @ [])"
    by (rule maxAge_skip [OF assms])
  also have "\<dots> = sublist ''; Path='' (concat (secureWrites others)
      @ concat (httpOnlyWrites others) @ [])"
    by (rule domain_skip)
  also have "\<dots> = sublist ''; Path='' (concat (httpOnlyWrites others) @ [])"
    by (rule secure_skip)
  also have "\<dots> = sublist ''; Path='' []"
    by (rule httpOnly_skip)
  finally show ?thesis by simp
qed


text \<open>
  C5, as the code has it. The attributes are the writes to the buffer after the first
  (\<open>name=value\<close>); those that begin with \<open>; Path=\<close> are: the default \<open>; Path=/\<close> when
  there are fewer than two optional arguments; \<open>; Path=\<close> followed by the sanitized
  value when the argument at the path position is a non-empty string; none at all when
  an argument is at the path position and is an empty string or not a string. In the
  first two cases the emitted string contains the attribute. In the last \<open>SetCookie\<close>
  appends no \<open>Path\<close> attribute: the emitted string is built from the other blocks alone
  and, the formatted expiry time having no \<open>;\<close>, it contains \<open>; Path=\<close> only where the
  sanitized name followed by \<open>=\<close> does, so nowhere when the name has no \<open>;\<close>.
\<close>

theorem SetCookie_path:
  "(let attrs = tl (cookieWrites rt name val others);
        paths = filter (prefix ''; Path='') attrs
    in cookieString rt name val others = concat (cookieWrites rt name val others)
       \<and> (length others \<le> 1 \<longrightarrow>
            paths = [''; Path=/''] \<and> sublist ''; Path=/'' (cookieString rt name val others))
       \<and> (\<forall>v. 1 < length others \<and> others ! 1 = IString v \<and> v \<noteq> [] \<longrightarrow>
            paths = [''; Path='' @ sanitizeValue v]
            \<and> sublist (''; Path='' @ sanitizeValue v) (cookieString rt name val others))
       \<and> (1 < length others \<and> (\<forall>v. others ! 1 = IString v \<longrightarrow> v = []) \<longrightarrow>
            paths = []
            \<and> cookieString rt name val others
                = sanitizeName name @ ''='' @ sanitizeValue val
                  @ concat (maxAgeWrites rt others) @ concat (domainWrites others)
                  @ concat (secureWrites others) @ concat (httpOnlyWrites others)
            \<and> ((\<forall>m. CHR '';'' \<notin> set (expiresIn rt m)) \<longrightarrow>
                 (sublist ''; Path='' (cookieString rt name val others)
                    \<longleftrightarrow> sublist ''; Path='' (sanitizeName name @ ''=''))
                 \<and> (CHR '';'' \<notin> set name \<longrightarrow>
                      \<not> sublist ''; Path='' (cookieString rt name val others)))))"
proof -
  have a: "length others \<le> 1 \<Longrightarrow> pathWrites others = [''; Path=/'']"
    by (simp add: pathWrites_def)
  have b: "1 < length others \<Longrightarrow> others ! 1 = IString v \<Longrightarrow> v \<noteq> [] \<Longrightarrow>
      pathWrites others = [''; Path='' @ sanitizeValue v]" for v
    by (simp add: pathWrites_def)
  have c: "1 < length others \<Longrightarrow> (\<forall>v. others ! 1 = IString v \<longrightarrow> v = []) \<Longrightarrow>
      pathWrites others = []"
    by (auto simp: pathWrites_def split: iface.splits)
  have d: "pathWrites others = [] \<Longrightarrow> cookieString rt name val others
      = sanitizeName name @ ''='' @ sanitizeValue val
        @ concat (maxAgeWrites rt others) @ concat (domainWrites others)
        @ concat (secureWrites others) @ concat (httpOnlyWrites others)"
    by (simp add: cookieString_def cookieWrites_def)
  have e: "sublist ''; Path='' (cookieString rt name val others)
      \<longleftrightarrow> sublist ''; Path='' (sanitizeName name @ ''='')"
    if "pathWrites others = []" "\<forall>m. CHR '';'' \<notin> set (expiresIn rt m)"
  proof -
    have "cookieString rt name val others
        = (sanitizeName name @ ''='') @ (sanitizeValue val
          @ concat (maxAgeWrites rt others) @ concat (domainWrites others)
          @ concat (secureWrites others) @ concat (httpOnlyWrites others))"
      using d [OF that(1)] by simp
    then show ?thesis
      using sublist_across_eq [OF no_path_after_value [OF that(2)]] by simp
  qed
  have f: "\<not> sublist ''; Path='' (sanitizeName name @ ''='')" if "CHR '';'' \<notin> set name"
  proof
    assume "sublist ''; Path='' (sanitizeName name @ ''='')"
    then have "set ''; Path='' \<subseteq> set (sanitizeName name @ ''='')"
      by (rule set_mono_sublist)
    then have "CHR '';'' \<in> set (sanitizeName name)" by auto
    with that show False by (auto simp: sanitizeName_map split: if_splits)
  qed
  show ?thesis
    unfolding Let_def path_attributes
    using a b c d e f pathWrites_sublist [of _ others rt name val]
    by (auto simp: cookieString_def)
qed

theorem SetCookie_path_witness:
  "cookieString exampleRuntime ''sid'' ''abc'' [] = ''sid=abc; Path=/''
   \<and> sublist ''; Path=/'' (cookieString exampleRuntime ''sid'' ''abc'' [])
   \<and> cookieString exampleRuntime ''sid'' ''abc'' [IInt 0, IString ''/app;x''] = ''sid=abc; Path=/app x''
   \<and> sublist ''; Path=/app x''
        (cookieString exampleRuntime ''sid'' ''abc'' [IInt 0, IString ''/app;x''])
   \<and> filter (prefix ''; Path='')
        (tl (cookieWrites exampleRuntime ''sid'' ''abc'' [IInt 0, INil, IString ''example.org'']))
       = []
   \<and> cookieString exampleRuntime ''sid'' ''abc'' [IInt 0, INil, IString ''example.org'']
       = ''sid=abc; Domain=example.org''
   \<and> \<not> sublist ''; Path=''
        (cookieString exampleRuntime ''sid'' ''abc'' [IInt 0, INil, IString ''example.org''])
   \<and> cookieString exampleRuntime ''a; Path=/evil'' ''v'' [IInt 0, INil] = ''a; Path=/evil=v''"
proof -
  have 1: "cookieString exampleRuntime ''sid'' ''abc'' [] = ''sid=abc; Path=/''"
    "cookieString exampleRuntime ''sid'' ''abc'' [IInt 0, IString ''/app;x'']
       = ''sid=abc; Path=/app x''"
    "cookieString exampleRuntime ''sid'' ''abc'' [IInt 0, INil, IString ''example.org'']
       = ''sid=abc; Domain=example.org''"
    "sanitizeValue ''/app;x'' = ''/app x''"
    by (simp_all add: cookie_defs)
  have 2: "sublist ''; Path=/'' (cookieString exampleRuntime ''sid'' ''abc'' [])"
  proof -
    have "length ([] :: iface list) \<le> 1 \<longrightarrow>
        sublist ''; Path=/'' (cookieString exampleRuntime ''sid'' ''abc'' [])"
      using SetCookie_path [of exampleRuntime "''sid''" "''abc''" "[]"]
      unfolding Let_def by blast
    then show ?thesis by simp
  qed
  have 3: "sublist ''; Path=/app x''
        (cookieString exampleRuntime ''sid'' ''abc'' [IInt 0, IString ''/app;x''])"
  proof -
    have "1 < length [IInt 0, IString ''/app;x'']
        \<and> [IInt 0, IString ''/app;x''] ! 1 = IString ''/app;x'' \<and> ''/app;x'' \<noteq> [] \<longrightarrow>
        sublist (''; Path='' @ sanitizeValue ''/app;x'')
          (cookieString exampleRuntime ''sid'' ''abc'' [IInt 0, IString ''/app;x''])"
      using SetCookie_path [of exampleRuntime "''sid''" "''abc''" "[IInt 0, IString ''/app;x'']"]
      unfolding Let_def by blast
    then show ?thesis by (simp add: 1(4))
  qed
  have 4: "filter (prefix ''; Path='')
        (tl (cookieWrites exampleRuntime ''sid'' ''abc'' [IInt 0, INil, IString ''example.org'']))
       = []"
  proof -
    have "1 < length [IInt 0, INil, IString ''example.org'']
        \<and> (\<forall>v. [IInt 0, INil, IString ''example.org''] ! 1 = IString v \<longrightarrow> v = []) \<longrightarrow>
        filter (prefix ''; Path='')
          (tl (cookieWrites exampleRuntime ''sid'' ''abc''
                [IInt 0, INil, IString ''example.org''])) = []"
      using SetCookie_path
        [of exampleRuntime "''sid''" "''abc''" "[IInt 0, INil, IString ''example.org'']"]
      unfolding Let_def by blast
    then show ?thesis by simp
  qed
  have 5: "\<not> sublist ''; Path=''
        (cookieString exampleRuntime ''sid'' ''abc'' [IInt 0, INil, IString ''example.org''])"
  proof -
    have h: "\<forall>m. CHR '';'' \<notin> set (expiresIn exampleRuntime m)"
      "CHR '';'' \<notin> set ''sid''"
      by (simp_all add: exampleRuntime_def)
    have "1 < length [IInt 0, INil, IString ''example.org'']
        \<and> (\<forall>v. [IInt 0, INil, IString ''example.org''] ! 1 = IString v \<longrightarrow> v = [])
        \<and> (\<forall>m. CHR '';'' \<notin> set (expiresIn exampleRuntime m))
        \<and> CHR '';'' \<notin> set ''sid'' \<longrightarrow>
        \<not> sublist ''; Path=''
          (cookieString exampleRuntime ''sid'' ''abc''
            [IInt 0, INil, IString ''example.org''])"
      using SetCookie_path
        [of exampleRuntime "''sid''" "''abc''" "[IInt 0, INil, IString ''example.org'']"]
      unfolding Let_def by blast
    with h show ?thesis by simp
  qed
  have 6: "cookieString exampleRuntime ''a; Path=/evil'' ''v'' [IInt 0, INil]
      = ''a; Path=/evil=v''"
    by (simp add: cookie_defs)
  from 1 2 3 4 5 6 show ?thesis by simp
qed

text \<open>
  The default \<open>; Path=/\<close> is not what every argument other than a non-empty string
  gives: with \<open>nil\<close> or the empty string at the path position the emitted string is
  \<open>sid=abc\<close>, which has no \<open>Path\<close> attribute.
\<close>

theorem SetCookie_path_counterexample:
  "cookieString exampleRuntime ''sid'' ''abc'' [IInt 0, INil] = ''sid=abc''
   \<and> cookieString exampleRuntime ''sid'' ''abc'' [IInt 0, IString []] = ''sid=abc''
   \<and> \<not> sublist ''; Path=/'' (cookieString exampleRuntime ''sid'' ''abc'' [IInt 0, INil])
   \<and> \<not> sublist ''Path'' (cookieString exampleRuntime ''sid'' ''abc'' [IInt 0, IString []])"
  by (simp add: cookie_defs sublist_Cons_right)

subsection \<open>No line break in a cookie string\<close>

lemma Itoa_no_break: "lineBreak c \<Longrightarrow> c \<notin> set (Itoa k)"
  using Itoa_chars [of k] by (auto simp: lineBreak_def decimalDigits_def)

lemma sanitizeValue_no_break: "lineBreak c \<Longrightarrow> c \<notin> set (sanitizeValue v)"
  using sanitizeValue_chars [of v] by (auto simp: lineBreak_def)

lemma sanitizeName_no_break: "lineBreak c \<Longrightarrow> c \<notin> set (sanitizeName v)"
  using sanitizeName_chars [of v] by (auto simp: lineBreak_def)

lemma maxAgeWrites_no_break:
  assumes "lineBreak c" and "\<And>m. c \<notin> set (expiresIn rt m)"
  shows "c \<notin> set (concat (maxAgeWrites rt others))"
proof -
  have "c \<notin> set ''; Max-Age=0; Expires=''" using assms(1) by (auto simp: lineBreak_def)
  then show ?thesis
    using maxAgeWrites_cases [of rt others] assms(2) Itoa_no_break [OF assms(1)] by auto
qed

lemma pathWrites_no_break:
  assumes "lineBreak c"
  shows "c \<notin> set (concat (pathWrites others))"
proof -
  have "c \<notin> set ''; Path=/''" using assms by (auto simp: lineBreak_def)
  then show ?thesis
    using pathWrites_cases [of others] sanitizeValue_no_break [OF assms] by auto
qed

lemma domainWrites_no_break:
  assumes "lineBreak c"
  shows "c \<notin> set (concat (domainWrites others))"
proof -
  have "c \<notin> set ''; Domain=''" using assms by (auto simp: lineBreak_def)
  then show ?thesis
    using domainWrites_cases [of others] sanitizeValue_no_break [OF assms] by auto
qed

lemma secureWrites_no_break:
  assumes "lineBreak c"
  shows "c \<notin> set (concat (secureWrites others))"
proof -
  have "c \<notin> set ''; Secure''" using assms by (auto simp: lineBreak_def)
  then show ?thesis using secureWrites_cases [of others] by auto
qed

lemma httpOnlyWrites_no_break:
  assumes "lineBreak c"
  shows "c \<notin> set (concat (httpOnlyWrites others))"
proof -
  have "c \<notin> set ''; HttpOnly''" using assms by (auto simp: lineBreak_def)
  then show ?thesis using httpOnlyWrites_cases [of others] by auto
qed

lemma cookieString_no_break:
  assumes "lineBreak c" and "\<And>m. c \<notin> set (expiresIn rt m)"
  shows "c \<notin> set (cookieString rt name val others)"
proof -
  have "c \<noteq> CHR ''=''" using assms(1) by (auto simp: lineBreak_def)
  then show ?thesis
    using maxAgeWrites_no_break [OF assms, of others] pathWrites_no_break [OF assms(1), of others]
      domainWrites_no_break [OF assms(1), of others] secureWrites_no_break [OF assms(1), of others]
      httpOnlyWrites_no_break [OF assms(1), of others]
      sanitizeName_no_break [OF assms(1), of name] sanitizeValue_no_break [OF assms(1), of val]
    by (simp add: cookieString_def cookieWrites_def)
qed

lemma SetCookie_values:
  "Header_Values (Response_Header (SetCookie rt name val others ctx)) HeaderSetCookie
     = Header_Values (Response_Header ctx) HeaderSetCookie @ [cookieString rt name val others]"
  by (simp add: SetCookie_def addHeader_def Response_Header_def Header_Add_def
      Header_Values_def)

text \<open>
  C6. The sanitized name holds no CR and no LF; the sanitized value holds no CR, no LF
  and no \<open>;\<close>, and is the value with each of these three bytes replaced by one space
  (the name: CR and LF replaced by \<open>-\<close>), every other byte kept in place. The emitted
  \<open>Set-Cookie\<close> value begins with the sanitized name, \<open>=\<close> and the sanitized value, and
  is the value that \<open>SetCookie\<close> appends to the header. When the formatted expiry time
  has no line break, the whole emitted string has none.
\<close>

theorem SetCookie_sanitized:
  "CHR 0x0A \<notin> set (sanitizeName name) \<and> CHR 0x0D \<notin> set (sanitizeName name)
   \<and> CHR 0x0A \<notin> set (sanitizeValue val) \<and> CHR 0x0D \<notin> set (sanitizeValue val)
   \<and> CHR '';'' \<notin> set (sanitizeValue val)
   \<and> sanitizeValue val
       = map (\<lambda>c. if c = CHR '';'' \<or> c = CHR 0x0D \<or> c = CHR 0x0A then CHR '' '' else c) val
   \<and> sanitizeName name
       = map (\<lambda>c. if c = CHR 0x0D \<or> c = CHR 0x0A then CHR ''-'' else c) name
   \<and> prefix (sanitizeName name @ ''='' @ sanitizeValue val) (cookieString rt name val others)
   \<and> Header_Values (Response_Header (SetCookie rt name val others ctx)) HeaderSetCookie
       = Header_Values (Response_Header ctx) HeaderSetCookie @ [cookieString rt name val others]
   \<and> ((\<forall>m c. lineBreak c \<longrightarrow> c \<notin> set (expiresIn rt m)) \<longrightarrow>
        CHR 0x0A \<notin> set (cookieString rt name val others)
        \<and> CHR 0x0D \<notin> set (cookieString rt name val others))"
proof -
  have p: "prefix (sanitizeName name @ ''='' @ sanitizeValue val)
      (cookieString rt name val others)"
    by (simp add: cookieString_def cookieWrites_def)
  have b: "lineBreak (CHR 0x0A)" "lineBreak (CHR 0x0D)"
    by (simp_all add: lineBreak_def)
  have n: "CHR 0x0A \<notin> set (cookieString rt name val others)
        \<and> CHR 0x0D \<notin> set (cookieString rt name val others)"
    if "\<forall>m c. lineBreak c \<longrightarrow> c \<notin> set (expiresIn rt m)"
    using that b cookieString_no_break [of _ rt name val others] by blast
  show ?thesis
    using sanitizeName_chars [of name] sanitizeValue_chars [of val] sanitizeValue_map [of val]
      sanitizeName_map [of name] p SetCookie_values [of rt name val others ctx] n
    by blast
qed

theorem SetCookie_sanitized_witness:
  "sanitizeName (''a'' @ [CHR 0x0D, CHR 0x0A] @ ''b'') = ''a--b''
   \<and> sanitizeValue (''x;y'' @ [CHR 0x0D, CHR 0x0A] @ ''Set-Cookie: z'') = ''x y  Set-Cookie: z''
   \<and> cookieString exampleRuntime (''a'' @ [CHR 0x0D, CHR 0x0A] @ ''b'')
        (''x;y'' @ [CHR 0x0D, CHR 0x0A] @ ''Set-Cookie: z'') [IInt 60]
       = ''a--b=x y  Set-Cookie: z; Expires=Thu, 01 Jan 1970 00:00:00 UTC; Max-Age=60; Path=/''
   \<and> CHR 0x0A \<notin> set (cookieString exampleRuntime (''a'' @ [CHR 0x0D, CHR 0x0A] @ ''b'')
        (''x;y'' @ [CHR 0x0D, CHR 0x0A] @ ''Set-Cookie: z'') [IInt 60])
   \<and> CHR 0x0D \<notin> set (cookieString exampleRuntime (''a'' @ [CHR 0x0D, CHR 0x0A] @ ''b'')
        (''x;y'' @ [CHR 0x0D, CHR 0x0A] @ ''Set-Cookie: z'') [IInt 60])"
proof -
  let ?n = "''a'' @ [CHR 0x0D, CHR 0x0A] @ ''b''"
  let ?v = "''x;y'' @ [CHR 0x0D, CHR 0x0A] @ ''Set-Cookie: z''"
  have e: "\<forall>m c. lineBreak c \<longrightarrow> c \<notin> set (expiresIn exampleRuntime m)"
    by (auto simp: exampleRuntime_def lineBreak_def)
  have i: "Itoa 60 = ''60''"
    by (simp add: Itoa_def decimal.simps decimalDigits_def)
  have 1: "sanitizeName ?n = ''a--b''" "sanitizeValue ?v = ''x y  Set-Cookie: z''"
    by (simp_all add: cookie_defs)
  have 2: "cookieString exampleRuntime ?n ?v [IInt 60]
       = ''a--b=x y  Set-Cookie: z; Expires=Thu, 01 Jan 1970 00:00:00 UTC; Max-Age=60; Path=/''"
    by (simp add: cookie_defs exampleRuntime_def i)
  have 3: "CHR 0x0A \<notin> set (cookieString exampleRuntime ?n ?v [IInt 60])
      \<and> CHR 0x0D \<notin> set (cookieString exampleRuntime ?n ?v [IInt 60])"
    using e SetCookie_sanitized [of ?n ?v exampleRuntime "[IInt 60]"] by blast
  from 1 2 3 show ?thesis by blast
qed

subsection \<open>The signed cookie value\<close>

lemma length_encodeURL: "length encodeURL = 64"
  by (simp add: encodeURL_def)

lemma encodeURL_mem: "k < 64 \<Longrightarrow> encodeURL ! k \<in> set encodeURL"
  by (rule nth_mem) (simp add: length_encodeURL)

lemma EncodeToString_chars: "set (EncodeToString s) \<subseteq> insert (CHR ''='') (set encodeURL)"
proof (induction s rule: EncodeToString.induct)
  case 1
  then show ?case by simp
next
  case (2 a)
  have "(of_char a :: nat) < 256" by simp
  then have "(of_char a :: nat) * 65536 div 262144 < 64" by arith
  then show ?case by (simp add: Let_def encodeURL_mem)
next
  case (3 a b)
  have "(of_char a :: nat) < 256" "(of_char b :: nat) < 256" by simp_all
  then have "((of_char a :: nat) * 65536 + of_char b * 256) div 262144 < 64" by arith
  then show ?case by (simp add: Let_def encodeURL_mem)
next
  case (4 a b c rest)
  have "(of_char a :: nat) < 256" "(of_char b :: nat) < 256" "(of_char c :: nat) < 256"
    by simp_all
  then have "((of_char a :: nat) * 65536 + of_char b * 256 + of_char c) div 262144 < 64"
    by arith
  with 4 show ?case by (auto simp: Let_def encodeURL_mem)
qed

lemma length_hexDigits: "length hexDigits = 16"
  by (simp add: hexDigits_def)

lemma hexByte_chars: "set (hexByte c) \<subseteq> set hexDigits"
proof -
  have "(of_char c :: nat) < 256" by simp
  then have "(of_char c :: nat) div 16 < 16" by arith
  then have "hexDigits ! ((of_char c :: nat) div 16) \<in> set hexDigits"
    by (intro nth_mem) (simp add: length_hexDigits)
  moreover have "hexDigits ! ((of_char c :: nat) mod 16) \<in> set hexDigits"
    by (rule nth_mem) (simp add: length_hexDigits)
  ultimately show ?thesis by (simp add: hexByte_def)
qed

lemma Sprintf_02x_chars: "set (Sprintf_02x bs) \<subseteq> set hexDigits"
proof -
  have "set (concat (map hexByte bs)) \<subseteq> set hexDigits"
    using hexByte_chars by auto
  moreover have "CHR ''0'' \<in> set hexDigits" by (simp add: hexDigits_def)
  ultimately show ?thesis by (auto simp: Sprintf_02x_def Let_def)
qed

lemma length_Sprintf_02x: "length (Sprintf_02x bs) = max 2 (2 * length bs)"
proof -
  have "length (concat (map hexByte bs)) = 2 * length bs"
    by (induction bs) (simp_all add: hexByte_def)
  then show ?thesis by (cases bs) (simp_all add: Sprintf_02x_def Let_def)
qed

text \<open>The bytes that \<open>sanitizeValue\<close> replaces.\<close>

lemma sanitizeValue_id:
  assumes "CHR 0x0A \<notin> set s" and "CHR 0x0D \<notin> set s" and "CHR '';'' \<notin> set s"
  shows "sanitizeValue s = s"
  unfolding sanitizeValue_map using assms by (intro map_idI) auto

lemma secureCookieValue_eq:
  "secureCookieValue rt secret val
     = EncodeToString val @ ''|'' @ Itoa (sint (unixNano rt)) @ ''|''
       @ Sprintf_02x (hmac_sha1 rt secret (EncodeToString val @ Itoa (sint (unixNano rt))))"
  by (simp add: secureCookieValue_def Let_def)

lemma secureCookieValue_chars:
  assumes "c = CHR 0x0A \<or> c = CHR 0x0D \<or> c = CHR '';''"
  shows "c \<notin> set (secureCookieValue rt secret val)"
proof -
  have 1: "c \<notin> insert (CHR ''='') (set encodeURL)"
    using assms by (auto simp: encodeURL_def)
  have 2: "c \<notin> insert (CHR ''-'') (set decimalDigits)"
    using assms by (auto simp: decimalDigits_def)
  have 3: "c \<notin> set hexDigits"
    using assms by (auto simp: hexDigits_def)
  have 4: "c \<noteq> CHR ''|''"
    using assms by auto
  from 1 have 5: "c \<notin> set (EncodeToString val)"
    using EncodeToString_chars [of val] by blast
  from 2 have 6: "c \<notin> set (Itoa (sint (unixNano rt)))"
    using Itoa_chars [of "sint (unixNano rt)"] by blast
  from 3 have 7: "c \<notin> set (Sprintf_02x
      (hmac_sha1 rt secret (EncodeToString val @ Itoa (sint (unixNano rt)))))"
    using Sprintf_02x_chars by blast
  from 4 5 6 7 show ?thesis
    by (simp add: secureCookieValue_eq)
qed

subsection \<open>Reading the signed cookie value back\<close>

lemma encodeURL_values: "map base64urlValue encodeURL = [0..<64]"
  by code_simp

lemma encodeURL_value: "k < 64 \<Longrightarrow> base64urlValue (encodeURL ! k) = k"
proof -
  assume k: "k < 64"
  then have "base64urlValue (encodeURL ! k) = map base64urlValue encodeURL ! k"
    by (simp add: length_encodeURL)
  also have "\<dots> = k"
    unfolding encodeURL_values using k by simp
  finally show ?thesis .
qed

lemma encodeURL_not_pad: "k < 64 \<Longrightarrow> encodeURL ! k \<noteq> CHR ''=''"
proof -
  assume "k < 64"
  then have "encodeURL ! k \<in> set encodeURL" by (rule encodeURL_mem)
  moreover have "CHR ''='' \<notin> set encodeURL" by (simp add: encodeURL_def)
  ultimately show ?thesis by auto
qed

lemma hexDigits_values: "map hexValue hexDigits = [0..<16]"
  by code_simp

lemma hexDigits_value: "k < 16 \<Longrightarrow> hexValue (hexDigits ! k) = k"
proof -
  assume k: "k < 16"
  then have "hexValue (hexDigits ! k) = map hexValue hexDigits ! k"
    by (simp add: length_hexDigits)
  also have "\<dots> = k"
    unfolding hexDigits_values using k by simp
  finally show ?thesis .
qed

lemma div_add_small: "m < n \<Longrightarrow> (a * n + m) div n = (a::nat)"
  by simp

lemma mod_add_small: "m < n \<Longrightarrow> (a * n + m) mod n = (m::nat)"
  by simp

lemma div4096: "(v::nat) div 64 div 64 = v div 4096"
proof -
  have "v div 64 div 64 = v div (64 * 64)" by (rule div_mult2_eq [symmetric])
  then show ?thesis by simp
qed

lemma div262144: "(v::nat) div 4096 div 64 = v div 262144"
proof -
  have "v div 4096 div 64 = v div (4096 * 64)" by (rule div_mult2_eq [symmetric])
  then show ?thesis by simp
qed

lemma sextets_high: "(v div 262144) * 64 + v div 4096 mod 64 = (v::nat) div 4096"
  using div_mult_mod_eq [of "v div 4096" 64] by (simp add: div262144)

lemma sextets_mid:
  "(v div 262144) * 4096 + (v div 4096 mod 64) * 64 + v div 64 mod 64 = (v::nat) div 64"
proof -
  define t r2 r1 u w where "t = v div 262144" and "r2 = v div 4096 mod 64"
    and "r1 = v div 64 mod 64" and "u = v div 4096" and "w = v div 64"
  have "(v div 64 div 64) * 64 + v div 64 mod 64 = v div 64"
    by (rule div_mult_mod_eq)
  then have 1: "u * 64 + r1 = w"
    by (simp only: div4096 u_def r1_def w_def)
  have 2: "t * 64 + r2 = u"
    unfolding t_def r2_def u_def by (rule sextets_high)
  have "t * 4096 + r2 * 64 + r1 = w"
    unfolding 1 [symmetric] 2 [symmetric] by simp
  then show ?thesis
    unfolding t_def r2_def r1_def w_def .
qed

lemma sextets_all:
  "(v div 262144) * 262144 + (v div 4096 mod 64) * 4096 + (v div 64 mod 64) * 64 + v mod 64
     = (v::nat)"
proof -
  define t r2 r1 r0 w where "t = v div 262144" and "r2 = v div 4096 mod 64"
    and "r1 = v div 64 mod 64" and "r0 = v mod 64" and "w = v div 64"
  have 1: "w * 64 + r0 = v"
    unfolding w_def r0_def by (rule div_mult_mod_eq)
  have 2: "t * 4096 + r2 * 64 + r1 = w"
    unfolding t_def r2_def r1_def w_def by (rule sextets_mid)
  have "t * 262144 + r2 * 4096 + r1 * 64 + r0 = w * 64 + r0"
    unfolding 2 [symmetric] by simp
  then have "t * 262144 + r2 * 4096 + r1 * 64 + r0 = v"
    using 1 by simp
  then show ?thesis
    unfolding t_def r2_def r1_def r0_def .
qed

lemma sextet_bound: "(v::nat) < 16777216 \<Longrightarrow> v div 262144 < 64"
  by (rule less_mult_imp_div_less) simp

lemma bytes3:
  fixes a b c :: nat
  assumes "b < 256" "c < 256"
  shows "(a * 65536 + b * 256 + c) div 65536 = a"
    and "(a * 65536 + b * 256 + c) div 256 mod 256 = b"
    and "(a * 65536 + b * 256 + c) mod 256 = c"
proof -
  have 1: "b * 256 + c < 65536" using assms by simp
  have "a * 65536 + b * 256 + c = a * 65536 + (b * 256 + c)" by simp
  then show "(a * 65536 + b * 256 + c) div 65536 = a"
    using div_add_small [OF 1, of a] by simp
  have 2: "a * 65536 + b * 256 + c = (a * 256 + b) * 256 + c" by simp
  show "(a * 65536 + b * 256 + c) mod 256 = c"
    unfolding 2 using assms(2) by (rule mod_add_small)
  have "(a * 65536 + b * 256 + c) div 256 = a * 256 + b"
    unfolding 2 using assms(2) by (rule div_add_small)
  then show "(a * 65536 + b * 256 + c) div 256 mod 256 = b"
    using mod_add_small [OF assms(1), of a] by simp
qed

lemma bytes2:
  fixes a b :: nat
  assumes "b < 256"
  shows "(a * 65536 + b * 256) div 64 div 1024 = a"
    and "(a * 65536 + b * 256) div 64 div 4 mod 256 = b"
proof -
  have 1: "a * 65536 + b * 256 = (a * 1024 + b * 4) * 64 + 0" by simp
  have 2: "(a * 65536 + b * 256) div 64 = a * 1024 + b * 4"
    unfolding 1 by (rule div_add_small) simp
  have 3: "b * 4 < 1024" using assms by simp
  show "(a * 65536 + b * 256) div 64 div 1024 = a"
    unfolding 2 using 3 by (rule div_add_small)
  have 4: "a * 1024 + b * 4 = (a * 256 + b) * 4 + 0" by simp
  have "(a * 1024 + b * 4) div 4 = a * 256 + b"
    unfolding 4 by (rule div_add_small) simp
  then show "(a * 65536 + b * 256) div 64 div 4 mod 256 = b"
    unfolding 2 using mod_add_small [OF assms, of a] by simp
qed

lemma bytes1: "(a * 65536) div 4096 div 16 = (a::nat)"
proof -
  have 1: "a * 65536 = (a * 16) * 4096 + 0" by simp
  have "(a * 65536) div 4096 = a * 16"
    unfolding 1 by (rule div_add_small) simp
  then show ?thesis by simp
qed


lemma decode_quad:
  assumes "v < 16777216"
  shows "base64urlDecode (encodeURL ! (v div 262144) # encodeURL ! (v div 4096 mod 64)
            # encodeURL ! (v div 64 mod 64) # encodeURL ! (v mod 64) # rest)
         = [char_of (v div 65536), char_of (v div 256 mod 256), char_of (v mod 256)]
           @ base64urlDecode rest"
  using sextet_bound [OF assms]
  by (simp add: encodeURL_value encodeURL_not_pad Let_def sextets_all)

lemma decode_pad1:
  assumes "v < 16777216"
  shows "base64urlDecode [encodeURL ! (v div 262144), encodeURL ! (v div 4096 mod 64),
            encodeURL ! (v div 64 mod 64), CHR ''='']
         = [char_of (v div 64 div 1024), char_of (v div 64 div 4 mod 256)]"
  using sextet_bound [OF assms]
  by (simp add: encodeURL_value encodeURL_not_pad Let_def sextets_mid)

lemma decode_pad2:
  assumes "v < 16777216"
  shows "base64urlDecode [encodeURL ! (v div 262144), encodeURL ! (v div 4096 mod 64),
            CHR ''='', CHR ''='']
         = [char_of (v div 4096 div 16)]"
  using sextet_bound [OF assms]
  by (simp add: encodeURL_value Let_def sextets_high)

lemma base64urlDecode_EncodeToString: "base64urlDecode (EncodeToString s) = s"
proof (induction s rule: EncodeToString.induct)
  case 1
  show ?case by simp
next
  case (2 a)
  define x where "x = (of_char a :: nat)"
  have x: "x < 256" by (simp add: x_def)
  then have v: "x * 65536 < 16777216" by simp
  have "EncodeToString [a]
      = [encodeURL ! (x * 65536 div 262144), encodeURL ! (x * 65536 div 4096 mod 64),
         CHR ''='', CHR ''='']"
    by (simp add: Let_def x_def)
  then have "base64urlDecode (EncodeToString [a]) = [char_of (x * 65536 div 4096 div 16)]"
    by (simp only: decode_pad2 [OF v])
  then show ?case by (simp only: bytes1) (simp add: x_def)
next
  case (3 a b)
  define x y where "x = (of_char a :: nat)" and "y = (of_char b :: nat)"
  define v where "v = x * 65536 + y * 256"
  have x: "x < 256" and y: "y < 256" by (simp_all add: x_def y_def)
  then have v: "v < 16777216" by (simp add: v_def)
  have "EncodeToString [a, b]
      = [encodeURL ! (v div 262144), encodeURL ! (v div 4096 mod 64),
         encodeURL ! (v div 64 mod 64), CHR ''='']"
    by (simp add: Let_def x_def y_def v_def)
  then have "base64urlDecode (EncodeToString [a, b])
      = [char_of (v div 64 div 1024), char_of (v div 64 div 4 mod 256)]"
    by (simp only: decode_pad1 [OF v])
  then have "base64urlDecode (EncodeToString [a, b]) = [char_of x, char_of y]"
    unfolding v_def by (simp only: bytes2 [OF y])
  then show ?case by (simp add: x_def y_def)
next
  case (4 a b c rest)
  define x y z where "x = (of_char a :: nat)" and "y = (of_char b :: nat)"
    and "z = (of_char c :: nat)"
  define v where "v = x * 65536 + y * 256 + z"
  have x: "x < 256" and y: "y < 256" and z: "z < 256" by (simp_all add: x_def y_def z_def)
  then have v: "v < 16777216" by (simp add: v_def)
  have "EncodeToString (a # b # c # rest)
      = encodeURL ! (v div 262144) # encodeURL ! (v div 4096 mod 64)
        # encodeURL ! (v div 64 mod 64) # encodeURL ! (v mod 64) # EncodeToString rest"
    by (simp add: Let_def x_def y_def z_def v_def)
  then have "base64urlDecode (EncodeToString (a # b # c # rest))
      = [char_of (v div 65536), char_of (v div 256 mod 256), char_of (v mod 256)]
        @ base64urlDecode (EncodeToString rest)"
    by (simp only: decode_quad [OF v])
  then have "base64urlDecode (EncodeToString (a # b # c # rest))
      = [char_of x, char_of y, char_of z] @ rest"
    unfolding v_def by (simp only: bytes3 [OF y z] 4)
  then show ?case by (simp add: x_def y_def z_def)
qed

lemma hexDecode_hexByte: "hexDecode (hexByte c @ rest) = c # hexDecode rest"
proof -
  define x where "x = (of_char c :: nat)"
  have "x < 256" by (simp add: x_def)
  then have "x div 16 < 16" by (intro less_mult_imp_div_less) simp
  then have "hexDecode (hexByte c @ rest) = char_of (x div 16 * 16 + x mod 16) # hexDecode rest"
    by (simp add: hexByte_def hexDigits_value flip: x_def)
  then show ?thesis by (simp add: x_def)
qed

lemma hexDecode_hex: "hexDecode (concat (map hexByte bs)) = bs"
  by (induction bs) (simp_all add: hexDecode_hexByte)

lemma hexDecode_Sprintf_02x: "bs \<noteq> [] \<Longrightarrow> hexDecode (Sprintf_02x bs) = bs"
proof -
  assume "bs \<noteq> []"
  then have "2 \<le> length (concat (map hexByte bs))"
    by (cases bs) (simp_all add: hexByte_def)
  then show ?thesis by (simp add: Sprintf_02x_def Let_def hexDecode_hex)
qed

lemma decimal_not_Nil: "decimal n \<noteq> []"
  by (subst decimal.simps) simp

lemma decimalInt_Itoa: "decimalInt (Itoa i) = i"
proof (cases "i < 0")
  case True
  then show ?thesis by (simp add: decimalInt_def Itoa_def decimalValue_decimal)
next
  case False
  obtain c ds where d: "decimal (nat i) = c # ds"
    using decimal_not_Nil [of "nat i"] by (cases "decimal (nat i)") auto
  then have "c \<in> set decimalDigits"
    using decimal_digits [of "nat i"] by auto
  then have "c \<noteq> CHR ''-''"
    by (auto simp: decimalDigits_def)
  then have "decimalInt (decimal (nat i)) = int (decimalValue (decimal (nat i)))"
    by (simp add: decimalInt_def d)
  with False show ?thesis by (simp add: Itoa_def decimalValue_decimal)
qed

lemma splitOn_no_sep: "sep \<notin> set a \<Longrightarrow> splitOn sep a = [a]"
  by (induction a) auto

lemma splitOn_append: "sep \<notin> set a \<Longrightarrow> splitOn sep (a @ sep # b) = a # splitOn sep b"
  by (induction a) auto

lemma base64url_alphabet:
  "insert (CHR ''='') (set encodeURL)
     = set ''ABCDEFGHIJKLMNOPQRSTUVWXYZabcdefghijklmnopqrstuvwxyz0123456789-_=''"
proof -
  have "''ABCDEFGHIJKLMNOPQRSTUVWXYZabcdefghijklmnopqrstuvwxyz0123456789-_=''
      = encodeURL @ ''=''"
    by (simp add: encodeURL_def)
  then show ?thesis by (simp only: set_append) simp
qed

lemma hex_alphabet: "set hexDigits = set ''0123456789abcdef''"
  by (simp only: hexDigits_def)

lemma decimal_alphabet: "insert (CHR ''-'') (set decimalDigits) = set ''-0123456789''"
  by (simp only: decimalDigits_def list.set(2))

lemma secureCookieValue_split:
  "splitOn (CHR ''|'') (secureCookieValue rt secret val)
     = [EncodeToString val, Itoa (sint (unixNano rt)),
        Sprintf_02x (hmac_sha1 rt secret (EncodeToString val @ Itoa (sint (unixNano rt))))]"
proof -
  have 1: "CHR ''|'' \<notin> set (EncodeToString val)"
    using EncodeToString_chars [of val] by (auto simp: encodeURL_def)
  have 2: "CHR ''|'' \<notin> set (Itoa (sint (unixNano rt)))"
    using Itoa_chars [of "sint (unixNano rt)"] by (auto simp: decimalDigits_def)
  have 3: "CHR ''|'' \<notin> set (Sprintf_02x m)" for m
    using Sprintf_02x_chars [of m] by (auto simp: hexDigits_def)
  show ?thesis
    unfolding secureCookieValue_eq
    by (simp add: splitOn_append [OF 1] splitOn_append [OF 2] splitOn_no_sep [OF 3])
qed

text \<open>
  C8. \<open>SetSecureCookie\<close> is \<open>SetCookie\<close> with the same name and attributes and the value
  made of three strings joined with \<open>|\<close>, which splitting at \<open>|\<close> gives back: the
  URL-safe base64 of the value (it decodes to the value), the nanosecond clock reading
  in decimal (it denotes that reading), and the lowercase hexadecimal of the HMAC-SHA1,
  keyed by the secret, of the first two strings concatenated (it decodes to that sum,
  two digits for each byte). None of the bytes of that value is one that \<open>SetCookie\<close>
  replaces, so the emitted header begins with the name, \<open>=\<close> and exactly that value.
\<close>

theorem SetSecureCookie_value:
  "(let vs = EncodeToString val;
        timestamp = Itoa (sint (unixNano rt));
        mac = hmac_sha1 rt secret (vs @ timestamp);
        sig = Sprintf_02x mac;
        cookie = vs @ ''|'' @ timestamp @ ''|'' @ sig
    in SetSecureCookie rt secret name val others ctx = SetCookie rt name cookie others ctx
       \<and> splitOn (CHR ''|'') cookie = [vs, timestamp, sig]
       \<and> base64urlDecode vs = val
       \<and> set vs \<subseteq> set ''ABCDEFGHIJKLMNOPQRSTUVWXYZabcdefghijklmnopqrstuvwxyz0123456789-_=''
       \<and> decimalInt timestamp = sint (unixNano rt)
       \<and> set timestamp \<subseteq> set ''-0123456789''
       \<and> set sig \<subseteq> set ''0123456789abcdef''
       \<and> length sig = max 2 (2 * length mac)
       \<and> (mac \<noteq> [] \<longrightarrow> hexDecode sig = mac \<and> length sig = 2 * length mac)
       \<and> sanitizeValue cookie = cookie
       \<and> prefix (sanitizeName name @ ''='' @ cookie) (cookieString rt name cookie others)
       \<and> Header_Values (Response_Header (SetSecureCookie rt secret name val others ctx))
            HeaderSetCookie
           = Header_Values (Response_Header ctx) HeaderSetCookie
             @ [cookieString rt name cookie others])"
proof -
  let ?cookie = "secureCookieValue rt secret val"
  let ?mac = "hmac_sha1 rt secret (EncodeToString val @ Itoa (sint (unixNano rt)))"
  have 1: "sanitizeValue ?cookie = ?cookie"
    by (rule sanitizeValue_id) (simp_all add: secureCookieValue_chars)
  have "prefix (sanitizeName name @ ''='' @ sanitizeValue ?cookie)
      (cookieString rt name ?cookie others)"
    by (simp add: cookieString_def cookieWrites_def)
  with 1 have 2: "prefix (sanitizeName name @ ''='' @ ?cookie)
      (cookieString rt name ?cookie others)"
    by simp
  have 3: "Header_Values (Response_Header (SetSecureCookie rt secret name val others ctx))
      HeaderSetCookie
      = Header_Values (Response_Header ctx) HeaderSetCookie
        @ [cookieString rt name ?cookie others]"
    by (simp add: SetSecureCookie_def SetCookie_values)
  have 4: "SetSecureCookie rt secret name val others ctx = SetCookie rt name ?cookie others ctx"
    by (simp add: SetSecureCookie_def)
  have 5: "set (EncodeToString val)
      \<subseteq> set ''ABCDEFGHIJKLMNOPQRSTUVWXYZabcdefghijklmnopqrstuvwxyz0123456789-_=''"
    using EncodeToString_chars [of val] unfolding base64url_alphabet .
  have 6: "set (Itoa (sint (unixNano rt))) \<subseteq> set ''-0123456789''"
    using Itoa_chars [of "sint (unixNano rt)"] unfolding decimal_alphabet .
  have 7: "set (Sprintf_02x ?mac) \<subseteq> set ''0123456789abcdef''"
    using Sprintf_02x_chars [of ?mac] unfolding hex_alphabet .
  have 8: "?mac \<noteq> [] \<longrightarrow>
      hexDecode (Sprintf_02x ?mac) = ?mac \<and> length (Sprintf_02x ?mac) = 2 * length ?mac"
    using hexDecode_Sprintf_02x [of ?mac] length_Sprintf_02x [of ?mac]
    by (cases ?mac) simp_all
  have 9: "splitOn (CHR ''|'') ?cookie
      = [EncodeToString val, Itoa (sint (unixNano rt)), Sprintf_02x ?mac]"
    by (rule secureCookieValue_split)
  have 10: "base64urlDecode (EncodeToString val) = val"
    by (rule base64urlDecode_EncodeToString)
  have 11: "decimalInt (Itoa (sint (unixNano rt))) = sint (unixNano rt)"
    by (rule decimalInt_Itoa)
  have 12: "length (Sprintf_02x ?mac) = max 2 (2 * length ?mac)"
    by (rule length_Sprintf_02x)
  show ?thesis
    using 1 2 3 4 5 6 7 8 9 10 11 12
    unfolding secureCookieValue_eq Let_def by blast
qed

theorem SetSecureCookie_value_witness:
  "EncodeToString ''hello'' = ''aGVsbG8=''
   \<and> base64urlDecode ''aGVsbG8='' = ''hello''
   \<and> Itoa (sint (unixNano exampleRuntime)) = ''1500000000000000000''
   \<and> hmac_sha1 exampleRuntime ''key'' (''aGVsbG8='' @ ''1500000000000000000'')
       = replicate 20 (CHR 0x5A)
   \<and> replicate 20 (CHR 0x5A) \<noteq> []
   \<and> hexDecode (concat (replicate 20 ''5a'')) = replicate 20 (CHR 0x5A)
   \<and> SetSecureCookie exampleRuntime ''key'' ''sid'' ''hello'' [] exampleContext
       = SetCookie exampleRuntime ''sid''
           (''aGVsbG8=|1500000000000000000|'' @ concat (replicate 20 ''5a'')) []
           exampleContext"
proof -
  have 1: "EncodeToString ''hello'' = ''aGVsbG8=''"
    by (simp add: encodeURL_def Let_def)
  have 2: "Itoa (sint (unixNano exampleRuntime)) = ''1500000000000000000''"
    by (simp add: exampleRuntime_def Itoa_def decimal.simps decimalDigits_def)
  have 3: "hmac_sha1 exampleRuntime k m = replicate 20 (CHR 0x5A)" for k m
    by (simp add: exampleRuntime_def)
  have "length (concat (replicate n ''5a'')) = 2 * n" for n
    by (induction n) simp_all
  then have 4: "Sprintf_02x (replicate 20 (CHR 0x5A)) = concat (replicate 20 ''5a'')"
    by (simp add: Sprintf_02x_def hexByte_def hexDigits_def Let_def map_replicate)
  have 6: "replicate 20 (CHR 0x5A) \<noteq> []"
    by simp
  note t = SetSecureCookie_value
      [of "''hello''" exampleRuntime "''key''" "''sid''" "[]" exampleContext, unfolded Let_def]
  have "SetSecureCookie exampleRuntime ''key'' ''sid'' ''hello'' [] exampleContext
      = SetCookie exampleRuntime ''sid''
          (EncodeToString ''hello'' @ ''|'' @ Itoa (sint (unixNano exampleRuntime)) @ ''|''
           @ Sprintf_02x (hmac_sha1 exampleRuntime ''key''
               (EncodeToString ''hello'' @ Itoa (sint (unixNano exampleRuntime)))))
          [] exampleContext"
    using t by blast
  then have 5: "SetSecureCookie exampleRuntime ''key'' ''sid'' ''hello'' [] exampleContext
       = SetCookie exampleRuntime ''sid''
           (''aGVsbG8=|1500000000000000000|'' @ concat (replicate 20 ''5a'')) []
           exampleContext"
    unfolding 1 2 3 4 by simp
  have "base64urlDecode (EncodeToString ''hello'') = ''hello''"
    using t by blast
  then have 7: "base64urlDecode ''aGVsbG8='' = ''hello''"
    unfolding 1 .
  have "hmac_sha1 exampleRuntime ''key''
        (EncodeToString ''hello'' @ Itoa (sint (unixNano exampleRuntime))) \<noteq> [] \<longrightarrow>
      hexDecode (Sprintf_02x (hmac_sha1 exampleRuntime ''key''
        (EncodeToString ''hello'' @ Itoa (sint (unixNano exampleRuntime)))))
      = hmac_sha1 exampleRuntime ''key''
        (EncodeToString ''hello'' @ Itoa (sint (unixNano exampleRuntime)))"
    using t by blast
  then have 8: "hexDecode (concat (replicate 20 ''5a'')) = replicate 20 (CHR 0x5A)"
    unfolding 3 4 using 6 by blast
  from 1 2 3 5 6 7 8 show ?thesis by blast
qed

subsection \<open>Accumulation of \<open>Set-Cookie\<close> values\<close>

lemma SetCookie_header:
  "Response_Header (SetCookie rt name val others ctx)
     = (Response_Header ctx)(HeaderSetCookie \<mapsto>
          Header_Values (Response_Header ctx) HeaderSetCookie
          @ [cookieString rt name val others])"
  by (simp add: SetCookie_def addHeader_def Response_Header_def Header_Add_def
      Header_Values_def)

lemma SetCookies_values:
  "Header_Values (Response_Header (SetCookies cs ctx)) HeaderSetCookie
     = Header_Values (Response_Header ctx) HeaderSetCookie
       @ map (\<lambda>(rt, name, val, others). cookieString rt name val others) cs"
proof (induction cs arbitrary: ctx)
  case Nil
  then show ?case by (simp add: SetCookies_def)
next
  case (Cons c cs)
  obtain rt name val others where c: "c = (rt, name, val, others)"
    by (cases c) auto
  have "SetCookies (c # cs) ctx = SetCookies cs (SetCookie rt name val others ctx)"
    by (simp add: SetCookies_def c)
  then show ?case
    using Cons.IH [of "SetCookie rt name val others ctx"]
    by (simp add: c SetCookie_values)
qed

text \<open>
  C10. \<open>SetCookie\<close> changes the header map at \<open>Set-Cookie\<close> only, where it appends its
  cookie string after the values already there; so does \<open>SetSecureCookie\<close>. After \<open>n\<close>
  successive calls the values are the earlier ones followed by the \<open>n\<close> cookie strings
  in call order. \<open>Response.AddCookie\<close> appends likewise, \<open>Response.SetCookie\<close> leaves
  its cookie as the only value, and \<open>Response.DelCookie\<close> leaves none.
\<close>

theorem SetCookie_appends:
  "Response_Header (SetCookie rt name val others ctx)
     = (Response_Header ctx)(HeaderSetCookie \<mapsto>
          Header_Values (Response_Header ctx) HeaderSetCookie
          @ [cookieString rt name val others])
   \<and> Header_Values (Response_Header (SetCookie rt name val others ctx)) HeaderSetCookie
     = Header_Values (Response_Header ctx) HeaderSetCookie @ [cookieString rt name val others]
   \<and> Header_Values (Response_Header (SetSecureCookie rt secret name val others ctx))
        HeaderSetCookie
     = Header_Values (Response_Header ctx) HeaderSetCookie
       @ [cookieString rt name (secureCookieValue rt secret val) others]
   \<and> Header_Values (Response_Header (SetCookies cs ctx)) HeaderSetCookie
     = Header_Values (Response_Header ctx) HeaderSetCookie
       @ map (\<lambda>(rt, name, val, others). cookieString rt name val others) cs
   \<and> length (Header_Values (Response_Header (SetCookies cs ctx)) HeaderSetCookie)
     = length (Header_Values (Response_Header ctx) HeaderSetCookie) + length cs
   \<and> Header_Values (Response_Header (Response_AddCookie cookie ctx)) HeaderSetCookie
     = Header_Values (Response_Header ctx) HeaderSetCookie @ [cookie]
   \<and> Header_Values (Response_Header (Response_SetCookie cookie ctx)) HeaderSetCookie = [cookie]
   \<and> Header_Values (Response_Header (Response_DelCookie ctx)) HeaderSetCookie = []"
proof -
  have "Header_Values (Response_Header (Response_AddCookie cookie ctx)) HeaderSetCookie
     = Header_Values (Response_Header ctx) HeaderSetCookie @ [cookie]"
    by (simp add: Response_AddCookie_def addHeader_def Response_Header_def Header_Add_def
        Header_Values_def)
  moreover have
    "Header_Values (Response_Header (Response_SetCookie cookie ctx)) HeaderSetCookie = [cookie]"
    by (simp add: Response_SetCookie_def setHeader_def Response_Header_def Header_Set_def
        Header_Values_def)
  moreover have
    "Header_Values (Response_Header (Response_DelCookie ctx)) HeaderSetCookie = []"
    by (simp add: Response_DelCookie_def delHeader_def Response_Header_def Header_Del_def
        Header_Values_def)
  moreover have
    "Header_Values (Response_Header (SetSecureCookie rt secret name val others ctx))
        HeaderSetCookie
     = Header_Values (Response_Header ctx) HeaderSetCookie
       @ [cookieString rt name (secureCookieValue rt secret val) others]"
    by (simp add: SetSecureCookie_def SetCookie_values)
  moreover have
    "length (Header_Values (Response_Header (SetCookies cs ctx)) HeaderSetCookie)
     = length (Header_Values (Response_Header ctx) HeaderSetCookie) + length cs"
    by (simp add: SetCookies_values)
  ultimately show ?thesis
    using SetCookie_header [of rt name val others ctx] SetCookie_values [of rt name val others ctx]
      SetCookies_values [of cs ctx]
    by blast
qed

theorem SetCookie_appends_witness:
  "Header_Values (Response_Header
      (SetCookie exampleRuntime ''b'' ''2'' [IInt 0, IString ''/x'']
        (SetCookie exampleRuntime ''a'' ''1'' [] exampleContext))) HeaderSetCookie
     = [''a=1; Path=/'', ''b=2; Path=/x'']
   \<and> Header_Values (Response_Header
      (Response_SetCookie ''c=3''
        (SetCookie exampleRuntime ''a'' ''1'' [] exampleContext))) HeaderSetCookie
     = [''c=3'']"
proof -
  have 1: "cookieString exampleRuntime ''a'' ''1'' [] = ''a=1; Path=/''"
    "cookieString exampleRuntime ''b'' ''2'' [IInt 0, IString ''/x''] = ''b=2; Path=/x''"
    by (simp_all add: cookie_defs)
  have 2: "Header_Values (Response_Header exampleContext) HeaderSetCookie = []"
    by (simp add: exampleContext_def Response_Header_def Header_Values_def)
  let ?ctx1 = "SetCookie exampleRuntime ''a'' ''1'' [] exampleContext"
  have 3: "Header_Values (Response_Header ?ctx1) HeaderSetCookie
      = Header_Values (Response_Header exampleContext) HeaderSetCookie
        @ [cookieString exampleRuntime ''a'' ''1'' []]"
    using SetCookie_appends [where rt = exampleRuntime and name = "''a''" and val = "''1''"
        and others = "[]" and ctx = exampleContext]
    by blast
  have 4: "Header_Values (Response_Header
        (SetCookie exampleRuntime ''b'' ''2'' [IInt 0, IString ''/x''] ?ctx1)) HeaderSetCookie
      = Header_Values (Response_Header ?ctx1) HeaderSetCookie
        @ [cookieString exampleRuntime ''b'' ''2'' [IInt 0, IString ''/x'']]"
    using SetCookie_appends [where rt = exampleRuntime and name = "''b''" and val = "''2''"
        and others = "[IInt 0, IString ''/x'']" and ctx = ?ctx1]
    by blast
  have 5: "Header_Values (Response_Header (Response_SetCookie ''c=3'' ?ctx1)) HeaderSetCookie
      = [''c=3'']"
    using SetCookie_appends [where cookie = "''c=3''" and ctx = ?ctx1]
    by blast
  show ?thesis
    by (simp add: 1 2 3 4 5)
qed

end
